theory Spec2Isabelle
  imports Complex_Main "HOL-Library.Product_Lexorder"
begin

section \<open>Merged-mesh vertex reduction and resplitting\<close>

text \<open>
  A shallow embedding of \<^verbatim>\<open>soulstruct/base/models/flver/mesh_tools.py\<close>: the vertex
  reducer \<^verbatim>\<open>MergedMesh.merge_vertices\<close>, the bone-count-bounded subsplit
  \<^verbatim>\<open>MergedMesh.subsplit_faces\<close>, the bone-index remapper
  \<^verbatim>\<open>MergedMesh.make_bone_indices_local\<close>, the final vertex reduction of
  \<^verbatim>\<open>MergedMesh.split_mesh\<close> and the validation of UV layer names in
  \<^verbatim>\<open>SplitSubmeshDef.get_validated_uv_layer_names\<close>.

  Conventions. A Python exception is a value of \<open>error\<close> on the left of a sum. A numpy
  array of integers is a list; an array of shape \<open>(n, 4)\<close> is a list of rows. Values of
  numpy's \<^verbatim>\<open>float32\<close> columns are rationals: rounding, infinities, signed zero and
  not-a-number are outside the model, and the one test for not-a-number that the code
  makes (on positions, in \<^verbatim>\<open>from_flver\<close>) is carried as a flag of the vertex array.
\<close>

subsection \<open>Errors and numpy primitives\<close>

datatype error = ValueError | TypeError | IndexError | KeyError

text \<open>Running a loop body that may raise over a list: the first exception ends the loop.\<close>

fun fold_err :: "('a \<Rightarrow> 's \<Rightarrow> error + 's) \<Rightarrow> 'a list \<Rightarrow> 's \<Rightarrow> error + 's" where
  "fold_err f [] s = Inr s"
| "fold_err f (x # xs) s = (case f x s of Inl e \<Rightarrow> Inl e | Inr s' \<Rightarrow> fold_err f xs s')"

fun max_list :: "int list \<Rightarrow> int" where
  "max_list (x # xs) = (case xs of [] \<Rightarrow> x | _ \<Rightarrow> max x (max_list xs))"

text \<open>\<^verbatim>\<open>ndarray.min()\<close> and \<^verbatim>\<open>ndarray.max()\<close>: a zero-size array has no minimum and
  numpy raises \<^verbatim>\<open>ValueError\<close>.\<close>

definition np_min :: "int list \<Rightarrow> error + int" where
  "np_min xs = (if xs = [] then Inl ValueError else Inr (min_list xs))"

definition np_max :: "int list \<Rightarrow> error + int" where
  "np_max xs = (if xs = [] then Inl ValueError else Inr (max_list xs))"

subsection \<open>The bone-index remapper\<close>

text \<open>
  \<^verbatim>\<open>lut[submesh_bone_indices - lo] = np.arange(len(submesh_bone_indices))\<close>: entry
  \<open>k\<close> of the used-bone array writes \<open>k\<close> at its offset; a repeated offset keeps the last
  write. Offsets are never negative, \<open>lo\<close> being a minimum over both arrays.
\<close>

definition lut_assign :: "int list \<Rightarrow> int \<Rightarrow> int list \<Rightarrow> int list" where
  "lut_assign submesh_bone_indices lo lut =
     fold (\<lambda>k l. l[nat (submesh_bone_indices ! k - lo) := int k])
       [0..<length submesh_bone_indices] lut"

definition make_bone_indices_local :: "int list list \<Rightarrow> int list \<Rightarrow> error + int list list" where
  "make_bone_indices_local bone_indices submesh_bone_indices =
     (case np_min (concat bone_indices) of Inl e \<Rightarrow> Inl e | Inr bmin \<Rightarrow>
      case np_min submesh_bone_indices of Inl e \<Rightarrow> Inl e | Inr smin \<Rightarrow>
      case np_max (concat bone_indices) of Inl e \<Rightarrow> Inl e | Inr bmax \<Rightarrow>
      case np_max submesh_bone_indices of Inl e \<Rightarrow> Inl e | Inr smax \<Rightarrow>
        let lo = min bmin smin;
            hi = max bmax smax;
            lut = lut_assign submesh_bone_indices lo (replicate (nat (hi - lo + 1)) 0)
        in Inr (map (map (\<lambda>v. lut ! nat (v - lo))) bone_indices))"

subsection \<open>Vertices, submeshes and the merged mesh\<close>

type_synonym vec3 = "rat \<times> rat \<times> rat"
type_synonym vec4 = "rat \<times> rat \<times> rat \<times> rat"
type_synonym ivec4 = "int \<times> int \<times> int \<times> int"

text \<open>A row of the structured array \<^verbatim>\<open>all_vertices\<close>, and of \<^verbatim>\<open>vertex_data\<close>:
  the fields \<^verbatim>\<open>position\<close>, \<^verbatim>\<open>bone_weights\<close> and \<^verbatim>\<open>bone_indices\<close>. Its bytes are
  the raw key of the vertex reducer.\<close>

type_synonym merged_vertex = "vec3 \<times> vec4 \<times> ivec4"

text \<open>The loop columns of a vertex row: \<^verbatim>\<open>normal\<close>, \<^verbatim>\<open>normal_w\<close>, \<^verbatim>\<open>bitangent\<close>,
  and in \<open>'x\<close> the tangent, colour and UV columns, which the algorithms here only carry
  along.\<close>

type_synonym 'x loop_data = "vec3 \<times> nat \<times> vec4 \<times> 'x"

text \<open>A row of a FLVER vertex array, as a submesh holds it and as \<^verbatim>\<open>split_mesh\<close>
  emits it.\<close>

type_synonym 'x vertex = "merged_vertex \<times> 'x loop_data"

definition position_of :: "merged_vertex \<Rightarrow> vec3" where
  "position_of v = fst v"

definition bone_weights_of :: "merged_vertex \<Rightarrow> vec4" where
  "bone_weights_of v = fst (snd v)"

definition bone_indices_of :: "merged_vertex \<Rightarrow> ivec4" where
  "bone_indices_of v = snd (snd v)"

definition normal_of :: "'x loop_data \<Rightarrow> vec3" where
  "normal_of d = fst d"

type_synonym triangle = "nat \<times> nat \<times> nat"

text \<open>The field names of a vertex array's dtype: \<^verbatim>\<open>position\<close>, \<^verbatim>\<open>bone_weights\<close>,
  \<^verbatim>\<open>bone_indices\<close>, \<^verbatim>\<open>normal\<close>, \<^verbatim>\<open>normal_w\<close>, \<^verbatim>\<open>bitangent\<close>, and the numbered
  \<^verbatim>\<open>tangent_i\<close>, \<^verbatim>\<open>color_i\<close> and \<^verbatim>\<open>uv_i\<close>.\<close>

datatype field_name =
  Position | Bone_weights | Bone_indices | Normal | Normal_w | Bitangent
  | Tangent nat | Color nat | Uv nat

text \<open>A vertex array: the field names of its dtype, its rows (a column the dtype lacks is
  never read), and the value of \<^verbatim>\<open>np.isnan(array["position"]).any()\<close>.\<close>

record 'x vertex_array =
  dtype_names :: "field_name list"
  array :: "'x vertex list"
  position_isnan :: bool

text \<open>A submesh. Each face set stands for its triangulation
  \<^verbatim>\<open>triangulate(allow_primitive_restarts=False)\<close>, which is not part of this file.\<close>

record 'x submesh =
  vertex_arrays :: "'x vertex_array list"
  face_sets :: "triangle list list"
  submesh_bone_indices :: "int list option"

text \<open>\<^verbatim>\<open>xs[0]\<close> on a Python list.\<close>

definition first :: "'a list \<Rightarrow> error + 'a" where
  "first xs = (if xs = [] then Inl IndexError else Inr (hd xs))"

text \<open>The merged mesh. \<open>loop_data\<close> holds the loop arrays row by row and
  \<open>loop_uvs_keys\<close> the keys of the dictionary \<^verbatim>\<open>loop_uvs\<close>; \<open>faces\<close> holds the rows
  \<^verbatim>\<open>[loop0, loop1, loop2, material_index]\<close> and \<open>faces_columns\<close> the second dimension of
  that array.\<close>

record 'x merged_mesh =
  vertex_data :: "merged_vertex list"
  loop_vertex_indices :: "nat list"
  loop_data :: "'x loop_data list"
  loop_uvs_keys :: "string list"
  faces :: "(nat \<times> nat \<times> nat \<times> nat) list"
  faces_columns :: nat

subsection \<open>The vertex reducer\<close>

definition np_dot :: "vec3 \<Rightarrow> vec3 \<Rightarrow> rat" where
  "np_dot a b = (case a of (a0, a1, a2) \<Rightarrow> case b of (b0, b1, b2) \<Rightarrow> a0 * b0 + a1 * b1 + a2 * b2)"

text \<open>The local variables of \<^verbatim>\<open>merge_vertices\<close> that the loops update. The
  reducer reads a row of \<^verbatim>\<open>all_vertices\<close> only through \<^verbatim>\<open>tobytes()\<close>, as a
  dictionary key, so the row type \<open>'v\<close> is left open; \<^verbatim>\<open>from_flver\<close> passes rows of
  type \<open>merged_vertex\<close>.\<close>

record 'v merge_state =
  vertex_indices_normals :: "'v \<rightharpoonup> nat \<times> vec3"
  inv_vertex_indices :: "'v \<rightharpoonup> nat"
  reduced_vertex_indices :: "nat list"
  vertex_count :: nat
  loop_vertex_index_array :: "nat list"
  assigned_loop_indices :: "nat set"

text \<open>
  The body of \<^verbatim>\<open>for loop_index in triangle\<close>. Reading \<^verbatim>\<open>all_vertices[loop_index]\<close>
  or \<^verbatim>\<open>loop_normals[loop_index]\<close> out of range raises \<^verbatim>\<open>IndexError\<close>;
  \<^verbatim>\<open>loop_vertex_indices\<close> is as long as \<^verbatim>\<open>loop_normals\<close>.
\<close>

definition assign_loop :: "'v list \<Rightarrow> vec3 list \<Rightarrow> nat \<Rightarrow> 'v merge_state \<Rightarrow> error + 'v merge_state" where
  "assign_loop all_vertices loop_normals loop_index s =
     (if loop_index \<in> assigned_loop_indices s then Inr s
      else if length all_vertices \<le> loop_index \<or> length loop_normals \<le> loop_index then Inl IndexError
      else
        let s = s\<lparr>assigned_loop_indices := insert loop_index (assigned_loop_indices s)\<rparr>;
            triangle_vert = all_vertices ! loop_index;
            vert_normal = loop_normals ! loop_index;
            vertex_hash = triangle_vert
        in case vertex_indices_normals s vertex_hash of
             None \<Rightarrow>
               Inr (s\<lparr>vertex_indices_normals :=
                        (vertex_indices_normals s)(vertex_hash \<mapsto> (vertex_count s, vert_normal)),
                      loop_vertex_index_array := (loop_vertex_index_array s)[loop_index := vertex_count s],
                      reduced_vertex_indices := reduced_vertex_indices s @ [loop_index],
                      vertex_count := vertex_count s + 1\<rparr>)
           | Some (existing_vertex_index, existing_normal) \<Rightarrow>
               if np_dot vert_normal existing_normal < - (9 / 10) then
                 (case inv_vertex_indices s vertex_hash of
                    None \<Rightarrow>
                      Inr (s\<lparr>inv_vertex_indices := (inv_vertex_indices s)(vertex_hash \<mapsto> vertex_count s),
                             reduced_vertex_indices := reduced_vertex_indices s @ [loop_index],
                             loop_vertex_index_array := (loop_vertex_index_array s)[loop_index := vertex_count s],
                             vertex_count := vertex_count s + 1\<rparr>)
                  | Some existing_inv_vertex_index \<Rightarrow>
                      Inr (s\<lparr>loop_vertex_index_array :=
                               (loop_vertex_index_array s)[loop_index := existing_inv_vertex_index]\<rparr>))
               else
                 Inr (s\<lparr>loop_vertex_index_array :=
                          (loop_vertex_index_array s)[loop_index := existing_vertex_index]\<rparr>))"

text \<open>The body of \<^verbatim>\<open>for triangle in triangles\<close>: the three loops in winding order.\<close>

definition assign_triangle :: "'v list \<Rightarrow> vec3 list \<Rightarrow> triangle \<Rightarrow> 'v merge_state \<Rightarrow> error + 'v merge_state" where
  "assign_triangle all_vertices loop_normals triangle s =
     (case triangle of (l0, l1, l2) \<Rightarrow>
        fold_err (assign_loop all_vertices loop_normals) [l0, l1, l2] s)"

definition offset_triangle :: "nat \<Rightarrow> triangle \<Rightarrow> triangle" where
  "offset_triangle loop_offset triangle =
     (case triangle of (l0, l1, l2) \<Rightarrow> (l0 + loop_offset, l1 + loop_offset, l2 + loop_offset))"

definition tag_face :: "nat \<Rightarrow> triangle \<Rightarrow> nat \<times> nat \<times> nat \<times> nat" where
  "tag_face material_index triangle = (case triangle of (l0, l1, l2) \<Rightarrow> (l0, l1, l2, material_index))"

text \<open>
  The body of the loop over \<^verbatim>\<open>zip(submeshes, submesh_material_indices)\<close>. The state
  also carries \<^verbatim>\<open>loop_offset\<close> and \<^verbatim>\<open>all_submesh_faces\<close>. Every triangle is appended
  to \<^verbatim>\<open>submesh_faces_list\<close>, so the block of a submesh is its offset triangles with the
  material index as fourth column.
\<close>

definition merge_submesh ::
  "'v list \<Rightarrow> vec3 list \<Rightarrow> 'x submesh \<times> nat \<Rightarrow>
   'v merge_state \<times> nat \<times> (nat \<times> nat \<times> nat \<times> nat) list list \<Rightarrow>
   error + 'v merge_state \<times> nat \<times> (nat \<times> nat \<times> nat \<times> nat) list list" where
  "merge_submesh all_vertices loop_normals sm st =
     (case sm of (submesh, material_index) \<Rightarrow>
      case st of (s, loop_offset, all_submesh_faces) \<Rightarrow>
      case first (face_sets submesh) of Inl e \<Rightarrow> Inl e | Inr face_set \<Rightarrow>
        let triangles = map (offset_triangle loop_offset) face_set in
        case fold_err (assign_triangle all_vertices loop_normals) triangles s of
          Inl e \<Rightarrow> Inl e
        | Inr s' \<Rightarrow>
            (case first (vertex_arrays submesh) of Inl e \<Rightarrow> Inl e | Inr vertex_array \<Rightarrow>
               Inr (s', loop_offset + length (array vertex_array),
                    all_submesh_faces @ [map (tag_face material_index) triangles])))"

text \<open>
  \<^verbatim>\<open>np.row_stack(all_submesh_faces)\<close>. The block of a submesh with triangles has four
  columns; \<^verbatim>\<open>np.column_stack\<close> of an empty face list and an empty tag column has two.
  Stacking no block, or blocks of different widths, raises \<^verbatim>\<open>ValueError\<close>.
\<close>

definition np_row_stack ::
  "(nat \<times> nat \<times> nat \<times> nat) list list \<Rightarrow> error + (nat \<times> nat \<times> nat \<times> nat) list \<times> nat" where
  "np_row_stack blocks =
     (if blocks = [] then Inl ValueError
      else if list_all (\<lambda>b. b \<noteq> []) blocks then Inr (concat blocks, 4)
      else if list_all (\<lambda>b. b = []) blocks then Inr ([], 2)
      else Inl ValueError)"

definition merge_init :: "nat list \<Rightarrow> 'v merge_state" where
  "merge_init loop_vertex_indices0 =
     \<lparr>vertex_indices_normals = Map.empty, inv_vertex_indices = Map.empty,
      reduced_vertex_indices = [], vertex_count = 0,
      loop_vertex_index_array = loop_vertex_indices0, assigned_loop_indices = {}\<rparr>"

text \<open>
  \<^verbatim>\<open>merge_vertices\<close>. \<^verbatim>\<open>loop_vertex_indices = np.empty(len(loop_normals))\<close> allocates
  the array without writing it: entry \<open>i\<close> first holds whatever the memory held, here
  \<open>uninitialized i\<close>.
\<close>

definition np_empty :: "(nat \<Rightarrow> nat) \<Rightarrow> nat \<Rightarrow> nat list" where
  "np_empty uninitialized n = map uninitialized [0..<n]"

definition merge_vertices ::
  "'x submesh list \<Rightarrow> 'v list \<Rightarrow> nat list \<Rightarrow> vec3 list \<Rightarrow> (nat \<Rightarrow> nat) \<Rightarrow>
   error + 'v list \<times> nat list \<times> (nat \<times> nat \<times> nat \<times> nat) list \<times> nat" where
  "merge_vertices submeshes all_vertices submesh_material_indices loop_normals uninitialized =
     (case fold_err (merge_submesh all_vertices loop_normals)
             (zip submeshes submesh_material_indices)
             (merge_init (np_empty uninitialized (length loop_normals)), 0, []) of
        Inl e \<Rightarrow> Inl e
      | Inr (s, loop_offset, all_submesh_faces) \<Rightarrow>
          (case np_row_stack all_submesh_faces of
             Inl e \<Rightarrow> Inl e
           | Inr (stacked, columns) \<Rightarrow>
               Inr (map (\<lambda>i. all_vertices ! i) (reduced_vertex_indices s),
                    loop_vertex_index_array s, stacked, columns)))"

subsection \<open>Invariants of the vertex reducer\<close>

text \<open>
  What the loops of \<^verbatim>\<open>merge_vertices\<close> keep true, stated on the state and the
  immutable inputs. \<open>inv_cover\<close> says that every reduced vertex is the entry of its own raw
  key in the primary or in the secondary table; \<open>inv_assigned\<close> that an assigned loop points
  at a reduced vertex with the loop's own raw key; \<open>inv_unassigned\<close> that the entry of a
  loop no triangle has named yet is still what \<^verbatim>\<open>np.empty\<close> left there.
\<close>

definition inv_shape :: "'v list \<Rightarrow> vec3 list \<Rightarrow> 'v merge_state \<Rightarrow> bool" where
  "inv_shape all_vertices loop_normals s \<longleftrightarrow>
     vertex_count s = length (reduced_vertex_indices s) \<and>
     length (loop_vertex_index_array s) = length loop_normals \<and>
     (\<forall>i\<in>set (reduced_vertex_indices s). i < length all_vertices)"

definition inv_primary :: "'v list \<Rightarrow> 'v merge_state \<Rightarrow> bool" where
  "inv_primary all_vertices s \<longleftrightarrow>
     (\<forall>k p. vertex_indices_normals s k = Some p \<longrightarrow>
        fst p < length (reduced_vertex_indices s) \<and>
        all_vertices ! (reduced_vertex_indices s ! fst p) = k)"

definition inv_secondary :: "'v list \<Rightarrow> 'v merge_state \<Rightarrow> bool" where
  "inv_secondary all_vertices s \<longleftrightarrow>
     (\<forall>k i. inv_vertex_indices s k = Some i \<longrightarrow>
        i < length (reduced_vertex_indices s) \<and>
        all_vertices ! (reduced_vertex_indices s ! i) = k)"

definition inv_cover :: "'v list \<Rightarrow> 'v merge_state \<Rightarrow> bool" where
  "inv_cover all_vertices s \<longleftrightarrow>
     (\<forall>j<length (reduced_vertex_indices s).
        map_option fst (vertex_indices_normals s (all_vertices ! (reduced_vertex_indices s ! j))) = Some j \<or>
        inv_vertex_indices s (all_vertices ! (reduced_vertex_indices s ! j)) = Some j)"

definition inv_assigned :: "'v list \<Rightarrow> vec3 list \<Rightarrow> 'v merge_state \<Rightarrow> bool" where
  "inv_assigned all_vertices loop_normals s \<longleftrightarrow>
     (\<forall>l\<in>assigned_loop_indices s.
        l < length all_vertices \<and> l < length loop_normals \<and>
        loop_vertex_index_array s ! l < length (reduced_vertex_indices s) \<and>
        all_vertices ! (reduced_vertex_indices s ! (loop_vertex_index_array s ! l)) = all_vertices ! l)"

definition inv_unassigned :: "vec3 list \<Rightarrow> (nat \<Rightarrow> nat) \<Rightarrow> 'v merge_state \<Rightarrow> bool" where
  "inv_unassigned loop_normals uninitialized s \<longleftrightarrow>
     (\<forall>l<length loop_normals. l \<notin> assigned_loop_indices s \<longrightarrow>
        loop_vertex_index_array s ! l = uninitialized l)"

definition merge_inv :: "'v list \<Rightarrow> vec3 list \<Rightarrow> (nat \<Rightarrow> nat) \<Rightarrow> 'v merge_state \<Rightarrow> bool" where
  "merge_inv all_vertices loop_normals uninitialized s \<longleftrightarrow>
     inv_shape all_vertices loop_normals s \<and> inv_primary all_vertices s \<and>
     inv_secondary all_vertices s \<and> inv_cover all_vertices s \<and>
     inv_assigned all_vertices loop_normals s \<and> inv_unassigned loop_normals uninitialized s"

definition triangle_loops :: "triangle \<Rightarrow> nat set" where
  "triangle_loops t = (case t of (l0, l1, l2) \<Rightarrow> {l0, l1, l2})"

definition face_loops :: "nat \<times> nat \<times> nat \<times> nat \<Rightarrow> nat set" where
  "face_loops f = (case f of (l0, l1, l2, m) \<Rightarrow> {l0, l1, l2})"

definition blocks_inv :: "'v list \<Rightarrow> vec3 list \<Rightarrow> (nat \<Rightarrow> nat) \<Rightarrow>
    'v merge_state \<times> nat \<times> (nat \<times> nat \<times> nat \<times> nat) list list \<Rightarrow> bool" where
  "blocks_inv all_vertices loop_normals uninitialized st \<longleftrightarrow>
     (case st of (s, loop_offset, all_submesh_faces) \<Rightarrow>
        merge_inv all_vertices loop_normals uninitialized s \<and>
        assigned_loop_indices s = (\<Union>f\<in>set (concat all_submesh_faces). face_loops f))"

subsection \<open>The loop consolidator and \<^verbatim>\<open>from_flver\<close>\<close>

text \<open>Running a function that may raise over a list, as a comprehension does.\<close>

fun map_err :: "('a \<Rightarrow> error + 'b) \<Rightarrow> 'a list \<Rightarrow> error + 'b list" where
  "map_err f [] = Inr []"
| "map_err f (x # xs) =
     (case f x of Inl e \<Rightarrow> Inl e
      | Inr y \<Rightarrow> (case map_err f xs of Inl e \<Rightarrow> Inl e | Inr ys \<Rightarrow> Inr (y # ys)))"

text \<open>\<^verbatim>\<open>table[i]\<close> on a numpy array: a negative index counts from the end, an index out of
  range raises \<^verbatim>\<open>IndexError\<close>.\<close>

definition np_take :: "int list \<Rightarrow> int \<Rightarrow> error + int" where
  "np_take table i =
     (let n = int (length table) in
      if - n \<le> i \<and> i < n then Inr (table ! nat (if i < 0 then i + n else i))
      else Inl IndexError)"

definition np_take4 :: "int list \<Rightarrow> ivec4 \<Rightarrow> error + ivec4" where
  "np_take4 table b =
     (case b of (b0, b1, b2, b3) \<Rightarrow>
      case np_take table b0 of Inl e \<Rightarrow> Inl e | Inr c0 \<Rightarrow>
      case np_take table b1 of Inl e \<Rightarrow> Inl e | Inr c1 \<Rightarrow>
      case np_take table b2 of Inl e \<Rightarrow> Inl e | Inr c2 \<Rightarrow>
      case np_take table b3 of Inl e \<Rightarrow> Inl e | Inr c3 \<Rightarrow> Inr (c0, c1, c2, c3))"

text \<open>
  One row of a submesh as \<^verbatim>\<open>build_stacked_loops\<close> stacks it: a column the dtype lacks
  gets its default, and local bone indices go through the submesh's table when it has
  one. The tangent, colour and UV columns are carried in \<open>'x\<close>.
\<close>

definition stack_vertex :: "field_name list \<Rightarrow> int list option \<Rightarrow> 'x vertex \<Rightarrow> error + 'x vertex" where
  "stack_vertex field_names table v =
     (case v of ((pos, weights, indices), (nrm, nrm_w, bitangent, other)) \<Rightarrow>
      case (if Bone_indices \<in> set field_names
            then (case table of None \<Rightarrow> Inr indices | Some t \<Rightarrow> np_take4 t indices)
            else Inr (0, 0, 0, 0)) of
        Inl e \<Rightarrow> Inl e
      | Inr global_indices \<Rightarrow>
          Inr ((if Position \<in> set field_names then pos else (0, 0, 0),
                if Bone_weights \<in> set field_names then weights else (0, 0, 0, 0),
                global_indices),
               (if Normal \<in> set field_names then nrm else (0, 1, 0),
                if Normal_w \<in> set field_names then nrm_w else 127,
                if Bitangent \<in> set field_names then bitangent else (0, 0, 1, 1),
                other)))"

text \<open>The decimal digits of a number, for \<^verbatim>\<open>f"UVMap{i}"\<close>.\<close>

fun string_of_nat :: "nat \<Rightarrow> string" where
  "string_of_nat n =
     (if n < 10 then [''0123456789'' ! n]
      else string_of_nat (n div 10) @ [''0123456789'' ! (n mod 10)])"

declare string_of_nat.simps [simp del]

definition default_uv_layer_name :: "nat \<Rightarrow> string" where
  "default_uv_layer_name i = ''UVMap'' @ string_of_nat i"

text \<open>The key of \<^verbatim>\<open>loop_uvs\<close> under which the column \<^verbatim>\<open>uv_i\<close> of a submesh is stored:
  \<^verbatim>\<open>material_uv_layer_names[material_index][uv_i]\<close> when the caller gave names and that
  entry exists, the default otherwise.\<close>

definition uv_layer_name_for :: "string list list option \<Rightarrow> nat \<Rightarrow> nat \<Rightarrow> string" where
  "uv_layer_name_for material_uv_layer_names material_index uv_i =
     (case material_uv_layer_names of
        None \<Rightarrow> default_uv_layer_name uv_i
      | Some layer_names \<Rightarrow>
          if material_index < length layer_names \<and> uv_i < length (layer_names ! material_index)
          then layer_names ! material_index ! uv_i
          else default_uv_layer_name uv_i)"

fun uv_indices :: "field_name list \<Rightarrow> nat list" where
  "uv_indices [] = []"
| "uv_indices (Uv i # fs) = i # uv_indices fs"
| "uv_indices (f # fs) = uv_indices fs"

text \<open>The body of the loop of \<^verbatim>\<open>build_stacked_loops\<close> for one submesh: its stacked rows
  and the UV layer names it writes.\<close>

definition stack_submesh ::
  "string list list option \<Rightarrow> 'x submesh \<times> nat \<Rightarrow> error + 'x vertex list \<times> string list" where
  "stack_submesh material_uv_layer_names sm =
     (case sm of (submesh, material_index) \<Rightarrow>
      case first (vertex_arrays submesh) of Inl e \<Rightarrow> Inl e | Inr vertices \<Rightarrow>
      case map_err (stack_vertex (dtype_names vertices) (submesh_bone_indices submesh))
             (array vertices) of
        Inl e \<Rightarrow> Inl e
      | Inr stacked \<Rightarrow>
          Inr (stacked,
               map (uv_layer_name_for material_uv_layer_names material_index)
                 (uv_indices (dtype_names vertices))))"

text \<open>\<^verbatim>\<open>build_stacked_loops\<close>: the rows of \<^verbatim>\<open>all_vertices\<close>, the loop data, and the keys
  of \<^verbatim>\<open>loop_uvs\<close>. Its one caller \<^verbatim>\<open>from_flver\<close> passes as many material indices as
  submeshes, so that the arrays, sized for all the submeshes, are filled by the loop over
  the pairs.\<close>

definition build_stacked_loops ::
  "'x submesh list \<Rightarrow> nat list \<Rightarrow> string list list option \<Rightarrow>
   error + merged_vertex list \<times> 'x loop_data list \<times> string list" where
  "build_stacked_loops submeshes material_indices material_uv_layer_names =
     (case map_err (stack_submesh material_uv_layer_names) (zip submeshes material_indices) of
        Inl e \<Rightarrow> Inl e
      | Inr stacked \<Rightarrow>
          Inr (map fst (concat (map fst stacked)), map snd (concat (map fst stacked)),
               remdups (concat (map snd stacked))))"

definition has_nan_position :: "'x submesh \<Rightarrow> bool" where
  "has_nan_position submesh =
     list_ex (\<lambda>vertex_array. Position \<in> set (dtype_names vertex_array) \<and> position_isnan vertex_array)
       (vertex_arrays submesh)"

text \<open>The loop of \<^verbatim>\<open>from_flver\<close> that drops the submeshes with a not-a-number position:
  \<^verbatim>\<open>submesh_material_indices[i]\<close> is read for the others only.\<close>

fun valid_submeshes :: "nat list \<Rightarrow> (nat \<times> 'x submesh) list \<Rightarrow> error + ('x submesh \<times> nat) list" where
  "valid_submeshes submesh_material_indices [] = Inr []"
| "valid_submeshes submesh_material_indices ((i, submesh) # rest) =
     (if has_nan_position submesh then valid_submeshes submesh_material_indices rest
      else if length submesh_material_indices \<le> i then Inl IndexError
      else (case valid_submeshes submesh_material_indices rest of
              Inl e \<Rightarrow> Inl e
            | Inr valid \<Rightarrow> Inr ((submesh, submesh_material_indices ! i) # valid)))"

text \<open>
  \<^verbatim>\<open>MergedMesh.from_flver\<close>, on the submeshes of the FLVER. An absent or empty
  \<^verbatim>\<open>submesh_material_indices\<close> stands for \<^verbatim>\<open>range(len(flver.submeshes))\<close>.
\<close>

definition from_flver ::
  "'x submesh list \<Rightarrow> nat list option \<Rightarrow> string list list option \<Rightarrow> (nat \<Rightarrow> nat) \<Rightarrow>
   error + 'x merged_mesh" where
  "from_flver submeshes submesh_material_indices material_uv_layer_names uninitialized =
     (if submeshes = [] then Inl ValueError
      else
        let indices = (case submesh_material_indices of
                         None \<Rightarrow> [0..<length submeshes]
                       | Some given \<Rightarrow> if given = [] then [0..<length submeshes] else given)
        in case valid_submeshes indices (enumerate 0 submeshes) of
             Inl e \<Rightarrow> Inl e
           | Inr valid \<Rightarrow>
               (case build_stacked_loops (map fst valid) (map snd valid) material_uv_layer_names of
                  Inl e \<Rightarrow> Inl e
                | Inr (all_vertices, loops, uv_keys) \<Rightarrow>
                    (case merge_vertices (map fst valid) all_vertices (map snd valid)
                            (map normal_of loops) uninitialized of
                       Inl e \<Rightarrow> Inl e
                     | Inr (reduced, loop_indices, stacked, columns) \<Rightarrow>
                         Inr \<lparr>vertex_data = reduced, loop_vertex_indices = loop_indices,
                              loop_data = loops, loop_uvs_keys = uv_keys,
                              faces = stacked, faces_columns = columns\<rparr>)))"

subsection \<open>The bone-count-bounded subsplit\<close>

definition ivec4_list :: "ivec4 \<Rightarrow> int list" where
  "ivec4_list b = (case b of (b0, b1, b2, b3) \<Rightarrow> [b0, b1, b2, b3])"

definition vec4_list :: "vec4 \<Rightarrow> rat list" where
  "vec4_list w = (case w of (w0, w1, w2, w3) \<Rightarrow> [w0, w1, w2, w3])"

definition ivec4_of_list :: "int list \<Rightarrow> ivec4" where
  "ivec4_of_list bs = (bs ! 0, bs ! 1, bs ! 2, bs ! 3)"

text \<open>\<^verbatim>\<open>bone_indices[bone_weights == 0.0] = -1\<close> on one row.\<close>

definition mask_unused :: "vec4 \<Rightarrow> ivec4 \<Rightarrow> int list" where
  "mask_unused weights indices =
     map (\<lambda>(w, i). if w = 0 then - 1 else i) (zip (vec4_list weights) (ivec4_list indices))"

text \<open>The array \<^verbatim>\<open>bone_indices\<close> of \<^verbatim>\<open>subsplit_faces\<close>, one row of four per loop: the
  column of the loops, with the slots of weight zero set to \<open>-1\<close> for a bind-pose submesh
  whose unused slots are not marked yet.\<close>

definition loop_bone_indices :: "bool \<Rightarrow> bool \<Rightarrow> (merged_vertex \<times> 'y) list \<Rightarrow> int list list" where
  "loop_bone_indices is_bind_pose unused_bone_indices_are_minus_one submesh_loops =
     map (\<lambda>row.
            if is_bind_pose \<and> \<not> unused_bone_indices_are_minus_one
            then mask_unused (bone_weights_of (fst row)) (bone_indices_of (fst row))
            else ivec4_list (bone_indices_of (fst row)))
       submesh_loops"

text \<open>\<^verbatim>\<open>bone_indices.reshape((-1, 12))\<close>: the rows of three consecutive loops, joined. The
  caller has checked that the number of loops is a multiple of three.\<close>

fun face_rows :: "int list list \<Rightarrow> int list list" where
  "face_rows (r0 # r1 # r2 # rest) = (r0 @ r1 @ r2) # face_rows rest"
| "face_rows rest = []"

text \<open>
  The body of \<^verbatim>\<open>for face_index, face_bone_indices in enumerate(all_face_bone_indices)\<close>,
  on the state \<^verbatim>\<open>(subsplit_face_indices, subsplit_bone_indices, unique_indices)\<close>.
\<close>

definition subsplit_step ::
  "nat \<Rightarrow> nat \<times> int list \<Rightarrow> nat list \<times> int list list \<times> int set \<Rightarrow>
   nat list \<times> int list list \<times> int set" where
  "subsplit_step max_bones face st =
     (case face of (face_index, face_bone_indices) \<Rightarrow>
      case st of (subsplit_face_indices, subsplit_bone_indices, unique_indices) \<Rightarrow>
        let new_indices = unique_indices \<union> set face_bone_indices in
        if max_bones < card new_indices
        then (subsplit_face_indices @ [face_index],
              subsplit_bone_indices @ [sorted_list_of_set (unique_indices - {- 1})],
              {- 1} \<union> set face_bone_indices)
        else (subsplit_face_indices, subsplit_bone_indices, new_indices))"

definition subsplit_scan ::
  "nat \<Rightarrow> int list list \<Rightarrow> nat list \<times> int list list \<times> int set" where
  "subsplit_scan max_bones all_face_bone_indices =
     fold (subsplit_step max_bones) (enumerate 0 all_face_bone_indices) ([0], [], {- 1})"

text \<open>The body of the last loop: subsplit \<open>i\<close> takes the loops of its faces, with their bone
  indices made local to its own bone list.\<close>

definition make_subsplit ::
  "nat \<Rightarrow> (merged_vertex \<times> 'y) list \<Rightarrow> int list list \<Rightarrow> nat list \<Rightarrow> int list list \<Rightarrow> nat \<Rightarrow>
   error + nat \<times> (merged_vertex \<times> 'y) list \<times> int list" where
  "make_subsplit material_index submesh_loops bone_indices subsplit_face_indices subsplit_bone_indices i =
     (let face_start = subsplit_face_indices ! i;
          face_end = subsplit_face_indices ! (i + 1);
          loops_start = face_start * 3;
          loops_end = face_end * 3;
          subsplit_loops = take (loops_end - loops_start) (drop loops_start submesh_loops);
          subsplit_global_bone_indices = take (loops_end - loops_start) (drop loops_start bone_indices)
      in case make_bone_indices_local subsplit_global_bone_indices (subsplit_bone_indices ! i) of
           Inl e \<Rightarrow> Inl e
         | Inr local_indices \<Rightarrow>
             Inr (material_index,
                  map (\<lambda>(row, local). ((position_of (fst row), bone_weights_of (fst row), ivec4_of_list local), snd row))
                    (zip subsplit_loops local_indices),
                  subsplit_bone_indices ! i))"

definition subsplit_faces ::
  "nat \<Rightarrow> (merged_vertex \<times> 'y) list \<Rightarrow> bool \<Rightarrow> nat \<Rightarrow> bool \<Rightarrow>
   error + (nat \<times> (merged_vertex \<times> 'y) list \<times> int list) list" where
  "subsplit_faces material_index submesh_loops is_bind_pose max_bones_per_submesh
       unused_bone_indices_are_minus_one =
     (let bone_indices = loop_bone_indices is_bind_pose unused_bone_indices_are_minus_one submesh_loops in
      if length submesh_loops mod 3 \<noteq> 0 then Inl ValueError
      else
        let all_face_bone_indices = face_rows bone_indices;
            max_bones = max_bones_per_submesh + 1
        in case subsplit_scan max_bones all_face_bone_indices of
             (face_indices, bone_lists, unique_indices) \<Rightarrow>
               let subsplit_face_indices = face_indices @ [length submesh_loops div 3];
                   subsplit_bone_indices = bone_lists @ [sorted_list_of_set (unique_indices - {- 1})]
               in map_err (make_subsplit material_index submesh_loops bone_indices
                             subsplit_face_indices subsplit_bone_indices)
                    [0..<length subsplit_face_indices - 1])"

text \<open>All bone indices of a list of faces.\<close>

definition bones_of :: "int list list \<Rightarrow> int set" where
  "bones_of face_list = \<Union> (set ` set face_list)"

subsection \<open>The final vertex reduction\<close>

text \<open>The position of the first occurrence of a value in a list.\<close>

definition index_of :: "'a list \<Rightarrow> 'a \<Rightarrow> nat" where
  "index_of xs v = length (takeWhile (\<lambda>x. x \<noteq> v) xs)"

text \<open>\<^verbatim>\<open>np.unique(ar, return_index=True, return_inverse=True, axis=0)\<close>: the distinct
  rows in sorted order, for each of them the index of its first occurrence in \<open>ar\<close>, and
  for each row of \<open>ar\<close> the index of its value among the sorted rows. Rows are compared
  by a total order; any total order gives the same final result.\<close>

definition np_unique :: "'a::linorder list \<Rightarrow> 'a list \<times> nat list \<times> nat list" where
  "np_unique ar =
     (let u = sorted_list_of_set (set ar)
      in (u, map (index_of ar) u, map (index_of u) ar))"

text \<open>\<^verbatim>\<open>np.argsort(a)\<close>: the positions of \<open>a\<close> in the order of their values.\<close>

definition np_argsort :: "nat list \<Rightarrow> nat list" where
  "np_argsort a = sort_key (\<lambda>i. a ! i) [0..<length a]"

text \<open>\<^verbatim>\<open>a[indices]\<close> with an array of non-negative indices.\<close>

definition np_index :: "'a list \<Rightarrow> nat list \<Rightarrow> error + 'a list" where
  "np_index a indices =
     (if list_all (\<lambda>i. i < length a) indices then Inr (map (\<lambda>i. a ! i) indices)
      else Inl IndexError)"

text \<open>
  The final vertex reduction of \<^verbatim>\<open>split_mesh\<close>, from \<^verbatim>\<open>np.unique\<close> to
  \<^verbatim>\<open>face_vertex_indices = inverse_sorting_indices[face_vertex_indices]\<close>: the vertex
  rows of the submesh and the vertex index of every loop.
\<close>

definition reduce_vertices :: "'a::linorder list \<Rightarrow> error + 'a list \<times> nat list" where
  "reduce_vertices submesh_loops =
     (case np_unique submesh_loops of (sorted_vertices, first_indices, sorted_face_vertex_indices) \<Rightarrow>
        let sorting_indices = np_argsort first_indices in
        case np_index sorted_vertices sorting_indices of
          Inl e \<Rightarrow> Inl e
        | Inr submesh_vertices \<Rightarrow>
            let inverse_sorting_indices = np_argsort sorting_indices in
            (case np_index inverse_sorting_indices sorted_face_vertex_indices of
               Inl e \<Rightarrow> Inl e
             | Inr face_vertex_indices \<Rightarrow> Inr (submesh_vertices, face_vertex_indices)))"

text \<open>
  What the specification asks of that reduction: the distinct rows in the order of their
  first occurrence. The first row comes first; the others follow as among the remaining
  rows, without the rows equal to the first.
\<close>

fun first_occurrences :: "'a list \<Rightarrow> 'a list" where
  "first_occurrences [] = []"
| "first_occurrences (x # xs) = x # filter (\<lambda>y. y \<noteq> x) (first_occurrences xs)"

subsection \<open>Split definitions and \<^verbatim>\<open>split_mesh\<close>\<close>

text \<open>
  A row of the loop table that \<^verbatim>\<open>split_mesh\<close> works on, and of the vertex arrays it
  emits: position and bone data, and the loop columns the layout of the definition keeps.
\<close>

type_synonym 'y row = "merged_vertex \<times> 'y"

text \<open>
  \<^verbatim>\<open>VertexArrayLayout\<close> is not part of this file. A layout is taken by what the code
  asks of it: the number \<^verbatim>\<open>get_uv_count()\<close> of its UV fields, and, through the dtype
  \<^verbatim>\<open>get_dtypes()[1]\<close> and the UV layer names of the definition, the loop columns that a row
  of its vertex array keeps, as a function of the loop data. Every layout is taken to hold
  the columns \<^verbatim>\<open>position\<close>, \<^verbatim>\<open>bone_weights\<close> and \<^verbatim>\<open>bone_indices\<close>.
\<close>

record ('x, 'y) vertex_array_layout =
  get_uv_count :: nat
  get_columns :: "'x loop_data \<Rightarrow> 'y"

text \<open>The keys of \<^verbatim>\<open>kwargs\<close> that \<^verbatim>\<open>split_mesh\<close> reads; \<open>None\<close> is an absent key.\<close>

record split_kwargs =
  kw_is_bind_pose :: "bool option"
  kw_use_backface_culling :: "bool option"
  kw_face_set_count :: "int option"

record ('m, 'x, 'y) split_submesh_def =
  material :: 'm
  layout :: "('x, 'y) vertex_array_layout"
  kwargs :: split_kwargs
  uv_layer_names :: "string list option"

text \<open>
  \<^verbatim>\<open>SplitSubmeshDef.get_validated_uv_layer_names\<close>. The local \<^verbatim>\<open>uv_layer_names\<close> gets
  the default names when the field is \<^verbatim>\<open>None\<close> or empty, but the length test that follows
  reads the field itself: \<^verbatim>\<open>len(None)\<close> raises \<^verbatim>\<open>TypeError\<close>.
\<close>

definition get_validated_uv_layer_names ::
  "('m, 'x, 'y) split_submesh_def \<Rightarrow> string list \<Rightarrow> nat \<Rightarrow> error + string list" where
  "get_validated_uv_layer_names self global_uv_layer_names index =
     (let uv_count = get_uv_count (layout self);
          layer_names =
            (case uv_layer_names self of
               None \<Rightarrow> map default_uv_layer_name [0..<uv_count]
             | Some given \<Rightarrow> if given = [] then map default_uv_layer_name [0..<uv_count] else given)
      in case uv_layer_names self of
           None \<Rightarrow> Inl TypeError
         | Some given \<Rightarrow>
             if length given \<noteq> uv_count then Inl ValueError
             else if list_ex (\<lambda>layer_name. layer_name \<notin> set global_uv_layer_names) layer_names
             then Inl ValueError
             else Inr layer_names)"

text \<open>The first statements of \<^verbatim>\<open>split_mesh\<close>: the test of the bone limit, and the
  comprehension that validates the UV layer names of every definition in turn.\<close>

definition validate_split_submesh_defs ::
  "'x merged_mesh \<Rightarrow> ('m, 'x, 'y) split_submesh_def list \<Rightarrow> bool \<Rightarrow> nat \<Rightarrow> error + string list list" where
  "validate_split_submesh_defs self split_submesh_defs use_submesh_bone_indices max_bones_per_submesh =
     (if use_submesh_bone_indices \<and> max_bones_per_submesh < 3 then Inl ValueError
      else map_err (\<lambda>(i, submesh_def). get_validated_uv_layer_names submesh_def (loop_uvs_keys self) i)
             (enumerate 0 split_submesh_defs))"

text \<open>
  \<^verbatim>\<open>get_combined_loop_data\<close>, for the combined dtype of the definitions: row \<open>l\<close> holds the
  vertex data of \<^verbatim>\<open>loop_vertex_indices[l]\<close> and the loop data of loop \<open>l\<close>. With at least
  one definition the dtype has the position and bone columns, read through
  \<^verbatim>\<open>vertex_data[...][loop_vertex_indices]\<close>, which raises \<^verbatim>\<open>IndexError\<close> on an index out
  of range, and loop columns, whose assignment raises \<^verbatim>\<open>ValueError\<close> when the loop arrays
  are not as long as \<^verbatim>\<open>loop_vertex_indices\<close>. Every key of \<^verbatim>\<open>loop_uvs\<close> is assigned:
  one that no definition names is no field of the dtype, and the assignment raises
  \<^verbatim>\<open>ValueError\<close>.
\<close>

definition get_combined_loop_data ::
  "'x merged_mesh \<Rightarrow> string list list \<Rightarrow> error + (merged_vertex \<times> 'x loop_data) list" where
  "get_combined_loop_data self submesh_uv_layer_names =
     (if submesh_uv_layer_names \<noteq> [] \<and>
         list_ex (\<lambda>i. length (vertex_data self) \<le> i) (loop_vertex_indices self)
      then Inl IndexError
      else if submesh_uv_layer_names \<noteq> [] \<and>
         length (loop_data self) \<noteq> length (loop_vertex_indices self)
      then Inl ValueError
      else if list_ex (\<lambda>key. key \<notin> set (concat submesh_uv_layer_names)) (loop_uvs_keys self)
      then Inl ValueError
      else Inr (map (\<lambda>(i, d). (vertex_data self ! i, d))
                  (zip (loop_vertex_indices self) (loop_data self))))"

text \<open>The loop indices of the faces with a material index, in face order:
  \<^verbatim>\<open>faces[faces[:, 3] == material_index][:, :3].ravel()\<close>.\<close>

definition material_loop_indices :: "(nat \<times> nat \<times> nat \<times> nat) list \<Rightarrow> nat \<Rightarrow> nat list" where
  "material_loop_indices face_rows4 material_index =
     concat (map (\<lambda>(l0, l1, l2, m). [l0, l1, l2])
               (filter (\<lambda>(l0, l1, l2, m). m = material_index) face_rows4))"

text \<open>
  The body of the loop over the definitions: nothing for a material without faces;
  otherwise the loops of its faces, as rows of its layout, whole or cut by
  \<^verbatim>\<open>subsplit_faces\<close>. Reading column 3 of \<^verbatim>\<open>faces\<close> raises \<^verbatim>\<open>IndexError\<close> when the array
  has fewer than four columns.
\<close>

definition split_material ::
  "'x merged_mesh \<Rightarrow> (merged_vertex \<times> 'x loop_data) list \<Rightarrow> bool \<Rightarrow> nat \<Rightarrow> bool \<Rightarrow>
   nat \<times> ('m, 'x, 'y) split_submesh_def \<Rightarrow> error + (nat \<times> 'y row list \<times> int list option) list" where
  "split_material self merged_loops use_submesh_bone_indices max_bones_per_submesh
       unused_bone_indices_are_minus_one indexed_def =
     (case indexed_def of (material_index, submesh_def) \<Rightarrow>
      if faces_columns self < 4 then Inl IndexError
      else
        let submesh_loop_indices = material_loop_indices (faces self) material_index in
        if submesh_loop_indices = [] then Inr []
        else
          case np_index merged_loops submesh_loop_indices of
            Inl e \<Rightarrow> Inl e
          | Inr gathered \<Rightarrow>
              let submesh_loops = map (\<lambda>(v, d). (v, get_columns (layout submesh_def) d)) gathered in
              if use_submesh_bone_indices then
                (case kw_is_bind_pose (kwargs submesh_def) of
                   None \<Rightarrow> Inl KeyError
                 | Some bind_pose \<Rightarrow>
                     (case subsplit_faces material_index submesh_loops bind_pose
                             max_bones_per_submesh unused_bone_indices_are_minus_one of
                        Inl e \<Rightarrow> Inl e
                      | Inr subsplits \<Rightarrow>
                          Inr (map (\<lambda>(m, loops, bones). (m, loops, Some bones)) subsplits)))
              else Inr [(material_index, submesh_loops, None)])"

text \<open>An emitted submesh: its material, the rows of its one vertex array, its face sets
  (each the vertex indices of its triangles, three by three), its bone table, and the
  flags taken from \<^verbatim>\<open>kwargs\<close>.\<close>

record ('m, 'y) split_submesh =
  sub_material :: 'm
  sub_vertices :: "'y row list"
  sub_face_sets :: "nat list list"
  sub_bone_indices :: "int list option"
  sub_use_backface_culling :: bool
  sub_is_bind_pose :: "bool option"

text \<open>\<^verbatim>\<open>bone_indices[bone_indices == -1] = 0\<close> on a vertex row.\<close>

definition zero_unused :: "'y row \<Rightarrow> 'y row" where
  "zero_unused r =
     ((position_of (fst r), bone_weights_of (fst r),
       ivec4_of_list (map (\<lambda>b. if b = - 1 then 0 else b) (ivec4_list (bone_indices_of (fst r))))),
      snd r)"

text \<open>
  The body of the last loop of \<^verbatim>\<open>split_mesh\<close>: the final vertex reduction, the face set
  built from the vertex indices, and the submesh. The definition of a material index is
  read by position; \<^verbatim>\<open>refresh_bounding_box\<close> is outside the model.
\<close>

definition assemble_submesh ::
  "('m, 'x, 'y::linorder) split_submesh_def list \<Rightarrow> bool \<Rightarrow> nat \<times> 'y row list \<times> int list option \<Rightarrow>
   error + ('m, 'y) split_submesh" where
  "assemble_submesh split_submesh_defs unused_bone_indices_are_minus_one info =
     (case info of (material_index, submesh_loops, bone_table) \<Rightarrow>
      if length split_submesh_defs \<le> material_index then Inl IndexError
      else
        let submesh_def = split_submesh_defs ! material_index in
        case reduce_vertices submesh_loops of
          Inl e \<Rightarrow> Inl e
        | Inr (reduced, face_vertex_indices) \<Rightarrow>
            let submesh_vertices =
                  (if unused_bone_indices_are_minus_one then map zero_unused reduced else reduced);
                face_set_count =
                  (case kw_face_set_count (kwargs submesh_def) of None \<Rightarrow> 1 | Some n \<Rightarrow> n)
            in case kw_use_backface_culling (kwargs submesh_def) of
                 None \<Rightarrow> Inl KeyError
               | Some culling \<Rightarrow>
                   Inr \<lparr>sub_material = material submesh_def,
                        sub_vertices = submesh_vertices,
                        sub_face_sets =
                          face_vertex_indices # replicate (nat (face_set_count - 1)) face_vertex_indices,
                        sub_bone_indices = bone_table,
                        sub_use_backface_culling = culling,
                        sub_is_bind_pose = kw_is_bind_pose (kwargs submesh_def)\<rparr>)"

text \<open>
  \<^verbatim>\<open>MergedMesh.split_mesh\<close>. Building the dtype of a definition from its UV layer names
  raises \<^verbatim>\<open>ValueError\<close> when a name occurs twice.
\<close>

definition split_mesh ::
  "'x merged_mesh \<Rightarrow> ('m, 'x, 'y::linorder) split_submesh_def list \<Rightarrow> bool \<Rightarrow> nat \<Rightarrow> bool \<Rightarrow>
   error + ('m, 'y) split_submesh list" where
  "split_mesh self split_submesh_defs use_submesh_bone_indices max_bones_per_submesh
       unused_bone_indices_are_minus_one =
     (case validate_split_submesh_defs self split_submesh_defs use_submesh_bone_indices
             max_bones_per_submesh of
        Inl e \<Rightarrow> Inl e
      | Inr submesh_uv_layer_names \<Rightarrow>
          if list_ex (\<lambda>layer_names. \<not> distinct layer_names) submesh_uv_layer_names then Inl ValueError
          else
            case get_combined_loop_data self submesh_uv_layer_names of
              Inl e \<Rightarrow> Inl e
            | Inr merged_loops \<Rightarrow>
                (case map_err (split_material self merged_loops use_submesh_bone_indices
                                 max_bones_per_submesh unused_bone_indices_are_minus_one)
                        (enumerate 0 split_submesh_defs) of
                   Inl e \<Rightarrow> Inl e
                 | Inr split_submesh_info \<Rightarrow>
                     map_err (assemble_submesh split_submesh_defs unused_bone_indices_are_minus_one)
                       (concat split_submesh_info)))"

subsection \<open>Merging and resplitting: what is expected\<close>


text \<open>The blocks of faces that \<^verbatim>\<open>merge_vertices\<close> builds for a list of submeshes and
  material indices, the first submesh starting at a loop offset.\<close>

fun submesh_blocks :: "nat \<Rightarrow> ('x submesh \<times> nat) list \<Rightarrow> (nat \<times> nat \<times> nat \<times> nat) list list" where
  "submesh_blocks loop_offset [] = []"
| "submesh_blocks loop_offset ((submesh, material_index) # rest) =
     map (tag_face material_index) (map (offset_triangle loop_offset) (hd (face_sets submesh)))
       # submesh_blocks (loop_offset + length (array (hd (vertex_arrays submesh)))) rest"



subsection \<open>Example inputs\<close>

definition key_a :: merged_vertex where
  "key_a = ((0, 0, 0), (1, 0, 0, 0), (0, 0, 0, 0))"

definition key_b :: merged_vertex where
  "key_b = ((1, 0, 0), (1, 0, 0, 0), (0, 0, 0, 0))"

definition plain_loop :: "unit loop_data" where
  "plain_loop = ((0, 1, 0), 127, (0, 0, 1, 1), ())"

text \<open>A submesh of three vertices and the one triangle \<open>(0, 1, 2)\<close>.\<close>

definition one_triangle :: "unit submesh" where
  "one_triangle =
     \<lparr>vertex_arrays = [\<lparr>dtype_names = [Position, Bone_weights, Bone_indices, Normal],
                         array = [(key_a, plain_loop), (key_a, plain_loop), (key_b, plain_loop)],
                         position_isnan = False\<rparr>],
      face_sets = [[(0, 1, 2)]],
      submesh_bone_indices = None\<rparr>"

text \<open>The state of the reducer after the first loop of a mesh whose three loops share
  the raw key \<open>key_a\<close>, the first with normal \<open>(0, 1, 0)\<close>.\<close>

definition after_first_loop :: "merged_vertex merge_state" where
  "after_first_loop =
     \<lparr>vertex_indices_normals = [key_a \<mapsto> (0, (0, 1, 0))], inv_vertex_indices = Map.empty,
      reduced_vertex_indices = [0], vertex_count = 1,
      loop_vertex_index_array = [0, 0, 0], assigned_loop_indices = {0}\<rparr>"

text \<open>A submesh of four vertices and the one triangle \<open>(0, 1, 2)\<close>: no triangle names
  its last vertex.\<close>

definition key_c :: merged_vertex where
  "key_c = ((0, 1, 0), (1, 0, 0, 0), (0, 0, 0, 0))"

definition key_d :: merged_vertex where
  "key_d = ((0, 0, 1), (1, 0, 0, 0), (0, 0, 0, 0))"

definition spare_vertex :: "unit submesh" where
  "spare_vertex =
     \<lparr>vertex_arrays = [\<lparr>dtype_names = [Position, Bone_weights, Bone_indices, Normal, Normal_w, Bitangent],
                         array = [(key_a, plain_loop), (key_b, plain_loop), (key_c, plain_loop),
                                  (key_d, plain_loop)],
                         position_isnan = False\<rparr>],
      face_sets = [[(0, 1, 2)]],
      submesh_bone_indices = None\<rparr>"

text \<open>Loops of a bind-pose submesh: a loop with the given weights and bone indices.\<close>

definition skinned_loop :: "vec4 \<Rightarrow> ivec4 \<Rightarrow> merged_vertex \<times> unit" where
  "skinned_loop weights indices = (((0, 0, 0), weights, indices), ())"

text \<open>Two faces: the first uses bone 0, the second bones 1 and 2.\<close>

definition two_faces :: "(merged_vertex \<times> unit) list" where
  "two_faces =
     [skinned_loop (1, 0, 0, 0) (0, 0, 0, 0), skinned_loop (1, 0, 0, 0) (0, 0, 0, 0),
      skinned_loop (1, 0, 0, 0) (0, 0, 0, 0),
      skinned_loop (1 / 2, 1 / 2, 0, 0) (1, 2, 0, 0), skinned_loop (1 / 2, 1 / 2, 0, 0) (1, 2, 0, 0),
      skinned_loop (1 / 2, 1 / 2, 0, 0) (1, 2, 0, 0)]"

text \<open>Two faces: the first uses bone 0, the three vertices of the second use four bones
  each, twelve in all.\<close>

definition wide_face :: "(merged_vertex \<times> unit) list" where
  "wide_face =
     [skinned_loop (1, 0, 0, 0) (0, 0, 0, 0), skinned_loop (1, 0, 0, 0) (0, 0, 0, 0),
      skinned_loop (1, 0, 0, 0) (0, 0, 0, 0),
      skinned_loop (1 / 4, 1 / 4, 1 / 4, 1 / 4) (1, 2, 3, 4),
      skinned_loop (1 / 4, 1 / 4, 1 / 4, 1 / 4) (5, 6, 7, 8),
      skinned_loop (1 / 4, 1 / 4, 1 / 4, 1 / 4) (9, 10, 11, 12)]"

text \<open>A split definition for a submesh without UV columns, whose layout keeps every loop
  column; and the same definition with \<^verbatim>\<open>uv_layer_names\<close> left at its default.\<close>

definition plain_def :: "(unit, unit, unit loop_data) split_submesh_def" where
  "plain_def =
     \<lparr>material = (),
      layout = \<lparr>get_uv_count = 0, get_columns = (\<lambda>d. d)\<rparr>,
      kwargs = \<lparr>kw_is_bind_pose = Some False, kw_use_backface_culling = Some True,
                kw_face_set_count = None\<rparr>,
      uv_layer_names = Some []\<rparr>"

definition default_names_def :: "(unit, unit, unit loop_data) split_submesh_def" where
  "default_names_def = plain_def\<lparr>uv_layer_names := None\<rparr>"





subsection \<open>The bone-index remapper: proofs\<close>

lemma length_lut_assign: "length (lut_assign sbi lo lut) = length lut"
proof -
  have "length (fold (\<lambda>k l. l[nat (sbi ! k - lo) := int k]) ks lut) = length lut" for ks
    by (induction ks arbitrary: lut) simp_all
  then show ?thesis by (simp add: lut_assign_def)
qed





lemma max_list_Max: "xs \<noteq> [] \<Longrightarrow> max_list xs = Max (set xs)"
  by (induction xs rule: max_list.induct) (auto simp: max_def split: list.splits intro!: antisym)

lemma make_bone_indices_local_Inr:
  assumes "concat bone_indices \<noteq> []" "sbi \<noteq> []"
  shows "make_bone_indices_local bone_indices sbi =
     Inr (map (map (\<lambda>v. lut_assign sbi (min (Min (set (concat bone_indices))) (Min (set sbi)))
            (replicate (nat (max (Max (set (concat bone_indices))) (Max (set sbi))
               - min (Min (set (concat bone_indices))) (Min (set sbi)) + 1)) 0)
          ! nat (v - min (Min (set (concat bone_indices))) (Min (set sbi))))) bone_indices)"
  using assms
  by (simp add: make_bone_indices_local_def np_min_def np_max_def min_list_Min max_list_Max Let_def)







subsection \<open>The vertex reducer: proofs\<close>

lemma merge_inv_init:
  "merge_inv all_vertices loop_normals uninitialized
     (merge_init (np_empty uninitialized (length loop_normals)))"
  by (simp add: merge_inv_def inv_shape_def inv_primary_def inv_secondary_def inv_cover_def
      inv_assigned_def inv_unassigned_def merge_init_def np_empty_def)

lemma assign_loop_cases:
  assumes "assign_loop av lns l s = Inr s'"
  obtains
    (skip) "l \<in> assigned_loop_indices s" "s' = s"
  | (new) "l \<notin> assigned_loop_indices s" "l < length av" "l < length lns"
      "vertex_indices_normals s (av ! l) = None"
      "s' = s\<lparr>assigned_loop_indices := insert l (assigned_loop_indices s),
               vertex_indices_normals := (vertex_indices_normals s)(av ! l \<mapsto> (vertex_count s, lns ! l)),
               loop_vertex_index_array := (loop_vertex_index_array s)[l := vertex_count s],
               reduced_vertex_indices := reduced_vertex_indices s @ [l],
               vertex_count := vertex_count s + 1\<rparr>"
  | (new_inv) p where "l \<notin> assigned_loop_indices s" "l < length av" "l < length lns"
      "vertex_indices_normals s (av ! l) = Some p" "np_dot (lns ! l) (snd p) < - (9 / 10)"
      "inv_vertex_indices s (av ! l) = None"
      "s' = s\<lparr>assigned_loop_indices := insert l (assigned_loop_indices s),
               inv_vertex_indices := (inv_vertex_indices s)(av ! l \<mapsto> vertex_count s),
               reduced_vertex_indices := reduced_vertex_indices s @ [l],
               loop_vertex_index_array := (loop_vertex_index_array s)[l := vertex_count s],
               vertex_count := vertex_count s + 1\<rparr>"
  | (reuse_inv) p j where "l \<notin> assigned_loop_indices s" "l < length av" "l < length lns"
      "vertex_indices_normals s (av ! l) = Some p" "np_dot (lns ! l) (snd p) < - (9 / 10)"
      "inv_vertex_indices s (av ! l) = Some j"
      "s' = s\<lparr>assigned_loop_indices := insert l (assigned_loop_indices s),
               loop_vertex_index_array := (loop_vertex_index_array s)[l := j]\<rparr>"
  | (reuse) p where "l \<notin> assigned_loop_indices s" "l < length av" "l < length lns"
      "vertex_indices_normals s (av ! l) = Some p" "\<not> np_dot (lns ! l) (snd p) < - (9 / 10)"
      "s' = s\<lparr>assigned_loop_indices := insert l (assigned_loop_indices s),
               loop_vertex_index_array := (loop_vertex_index_array s)[l := fst p]\<rparr>"
proof (cases "l \<in> assigned_loop_indices s")
  case True
  with assms have "s' = s" by (simp add: assign_loop_def)
  with True show ?thesis by (rule skip)
next
  case False
  with assms have bounds: "l < length av" "l < length lns"
    by (auto simp: assign_loop_def split: if_splits)
  show ?thesis
  proof (cases "vertex_indices_normals s (av ! l)")
    case None
    with assms False bounds have
      "s' = s\<lparr>assigned_loop_indices := insert l (assigned_loop_indices s),
               vertex_indices_normals := (vertex_indices_normals s)(av ! l \<mapsto> (vertex_count s, lns ! l)),
               loop_vertex_index_array := (loop_vertex_index_array s)[l := vertex_count s],
               reduced_vertex_indices := reduced_vertex_indices s @ [l],
               vertex_count := vertex_count s + 1\<rparr>"
      by (simp add: assign_loop_def Let_def)
    with False bounds None show ?thesis by (rule new)
  next
    case (Some p)
    note hit = this
    obtain i n where p: "p = (i, n)" by (cases p)
    show ?thesis
    proof (cases "np_dot (lns ! l) (snd p) < - (9 / 10)")
      case dot: True
      show ?thesis
      proof (cases "inv_vertex_indices s (av ! l)")
        case None
        with assms False bounds hit p dot have
          "s' = s\<lparr>assigned_loop_indices := insert l (assigned_loop_indices s),
               inv_vertex_indices := (inv_vertex_indices s)(av ! l \<mapsto> vertex_count s),
               reduced_vertex_indices := reduced_vertex_indices s @ [l],
               loop_vertex_index_array := (loop_vertex_index_array s)[l := vertex_count s],
               vertex_count := vertex_count s + 1\<rparr>"
          by (simp add: assign_loop_def Let_def)
        with False bounds hit dot None show ?thesis by (rule new_inv)
      next
        case (Some j)
        with assms False bounds hit p dot have
          "s' = s\<lparr>assigned_loop_indices := insert l (assigned_loop_indices s),
               loop_vertex_index_array := (loop_vertex_index_array s)[l := j]\<rparr>"
          by (simp add: assign_loop_def Let_def)
        with False bounds hit dot Some show ?thesis by (rule reuse_inv)
      qed
    next
      case dot: False
      with assms False bounds hit p have
        "s' = s\<lparr>assigned_loop_indices := insert l (assigned_loop_indices s),
               loop_vertex_index_array := (loop_vertex_index_array s)[l := fst p]\<rparr>"
        by (simp add: assign_loop_def Let_def)
      with False bounds hit dot show ?thesis by (rule reuse)
    qed
  qed
qed



lemma assign_loop_inv:
  assumes inv: "merge_inv av lns u s" and step: "assign_loop av lns l s = Inr s'"
  shows "merge_inv av lns u s'"
proof -
  from inv have shape: "vertex_count s = length (reduced_vertex_indices s)"
      "length (loop_vertex_index_array s) = length lns"
      "\<And>i. i \<in> set (reduced_vertex_indices s) \<Longrightarrow> i < length av"
    and prim: "\<And>k p. vertex_indices_normals s k = Some p \<Longrightarrow>
        fst p < length (reduced_vertex_indices s) \<and> av ! (reduced_vertex_indices s ! fst p) = k"
    and sec: "\<And>k i. inv_vertex_indices s k = Some i \<Longrightarrow>
        i < length (reduced_vertex_indices s) \<and> av ! (reduced_vertex_indices s ! i) = k"
    and cover: "\<And>j. j < length (reduced_vertex_indices s) \<Longrightarrow>
        map_option fst (vertex_indices_normals s (av ! (reduced_vertex_indices s ! j))) = Some j \<or>
        inv_vertex_indices s (av ! (reduced_vertex_indices s ! j)) = Some j"
    and asg: "\<And>m. m \<in> assigned_loop_indices s \<Longrightarrow>
        m < length av \<and> m < length lns \<and>
        loop_vertex_index_array s ! m < length (reduced_vertex_indices s) \<and>
        av ! (reduced_vertex_indices s ! (loop_vertex_index_array s ! m)) = av ! m"
    and unasg: "\<And>m. m < length lns \<Longrightarrow> m \<notin> assigned_loop_indices s \<Longrightarrow>
        loop_vertex_index_array s ! m = u m"
    unfolding merge_inv_def inv_shape_def inv_primary_def inv_secondary_def inv_cover_def
      inv_assigned_def inv_unassigned_def by blast+
  let ?red = "reduced_vertex_indices s"
  let ?lvi = "loop_vertex_index_array s"
  from step show ?thesis
  proof (cases rule: assign_loop_cases)
    case skip
    with inv show ?thesis by simp
  next
    case new
    have f: "vertex_count s' = Suc (length ?red)" "reduced_vertex_indices s' = ?red @ [l]"
      "loop_vertex_index_array s' = ?lvi[l := length ?red]"
      "vertex_indices_normals s' = (vertex_indices_normals s)(av ! l \<mapsto> (length ?red, lns ! l))"
      "inv_vertex_indices s' = inv_vertex_indices s"
      "assigned_loop_indices s' = insert l (assigned_loop_indices s)"
      using shape(1) by (simp_all add: new(5))
    have 1: "inv_shape av lns s'"
      using shape new(2) by (auto simp: inv_shape_def f)
    have 2: "inv_primary av s'"
      unfolding inv_primary_def f
    proof (intro allI impI)
      fix k p assume h: "((vertex_indices_normals s)(av ! l \<mapsto> (length ?red, lns ! l))) k = Some p"
      show "fst p < length (?red @ [l]) \<and> av ! ((?red @ [l]) ! fst p) = k"
      proof (cases "k = av ! l")
        case True
        with h show ?thesis by auto
      next
        case False
        with h have "vertex_indices_normals s k = Some p" by simp
        from prim[OF this] show ?thesis by (simp add: nth_append)
      qed
    qed
    have 3: "inv_secondary av s'"
      unfolding inv_secondary_def f
    proof (intro allI impI)
      fix k i assume "inv_vertex_indices s k = Some i"
      from sec[OF this] show "i < length (?red @ [l]) \<and> av ! ((?red @ [l]) ! i) = k"
        by (simp add: nth_append)
    qed
    have 4: "inv_cover av s'"
      unfolding inv_cover_def f
    proof (intro allI impI)
      fix j assume j: "j < length (?red @ [l])"
      show "map_option fst (((vertex_indices_normals s)(av ! l \<mapsto> (length ?red, lns ! l)))
               (av ! ((?red @ [l]) ! j))) = Some j \<or>
            inv_vertex_indices s (av ! ((?red @ [l]) ! j)) = Some j"
      proof (cases "j = length ?red")
        case True
        then show ?thesis by simp
      next
        case False
        with j have jl: "j < length ?red" by simp
        from cover[OF jl] new(4) jl show ?thesis
          by (cases "av ! (?red ! j) = av ! l") (auto simp: nth_append)
      qed
    qed
    have 5: "inv_assigned av lns s'"
      unfolding inv_assigned_def f
    proof (intro ballI)
      fix m assume m: "m \<in> insert l (assigned_loop_indices s)"
      show "m < length av \<and> m < length lns \<and>
        ?lvi[l := length ?red] ! m < length (?red @ [l]) \<and>
        av ! ((?red @ [l]) ! (?lvi[l := length ?red] ! m)) = av ! m"
      proof (cases "m = l")
        case True
        with new(2,3) shape(2) show ?thesis by simp
      next
        case False
        with m have "m \<in> assigned_loop_indices s" by simp
        from asg[OF this] False show ?thesis by (simp add: nth_append)
      qed
    qed
    have 6: "inv_unassigned lns u s'"
      unfolding inv_unassigned_def f using unasg by simp
    from 1 2 3 4 5 6 show ?thesis by (simp add: merge_inv_def)
  next
    case (new_inv p)
    have f: "vertex_count s' = Suc (length ?red)" "reduced_vertex_indices s' = ?red @ [l]"
      "loop_vertex_index_array s' = ?lvi[l := length ?red]"
      "vertex_indices_normals s' = vertex_indices_normals s"
      "inv_vertex_indices s' = (inv_vertex_indices s)(av ! l \<mapsto> length ?red)"
      "assigned_loop_indices s' = insert l (assigned_loop_indices s)"
      using shape(1) by (simp_all add: new_inv(7))
    have 1: "inv_shape av lns s'"
      using shape new_inv(2) by (auto simp: inv_shape_def f)
    have 2: "inv_primary av s'"
      unfolding inv_primary_def f
    proof (intro allI impI)
      fix k q assume "vertex_indices_normals s k = Some q"
      from prim[OF this] show "fst q < length (?red @ [l]) \<and> av ! ((?red @ [l]) ! fst q) = k"
        by (simp add: nth_append)
    qed
    have 3: "inv_secondary av s'"
      unfolding inv_secondary_def f
    proof (intro allI impI)
      fix k i assume h: "((inv_vertex_indices s)(av ! l \<mapsto> length ?red)) k = Some i"
      show "i < length (?red @ [l]) \<and> av ! ((?red @ [l]) ! i) = k"
      proof (cases "k = av ! l")
        case True
        with h show ?thesis by auto
      next
        case False
        with h have "inv_vertex_indices s k = Some i" by simp
        from sec[OF this] show ?thesis by (simp add: nth_append)
      qed
    qed
    have 4: "inv_cover av s'"
      unfolding inv_cover_def f
    proof (intro allI impI)
      fix j assume j: "j < length (?red @ [l])"
      show "map_option fst (vertex_indices_normals s (av ! ((?red @ [l]) ! j))) = Some j \<or>
            ((inv_vertex_indices s)(av ! l \<mapsto> length ?red)) (av ! ((?red @ [l]) ! j)) = Some j"
      proof (cases "j = length ?red")
        case True
        then show ?thesis by simp
      next
        case False
        with j have jl: "j < length ?red" by simp
        from cover[OF jl] new_inv(6) jl show ?thesis
          by (cases "av ! (?red ! j) = av ! l") (auto simp: nth_append)
      qed
    qed
    have 5: "inv_assigned av lns s'"
      unfolding inv_assigned_def f
    proof (intro ballI)
      fix m assume m: "m \<in> insert l (assigned_loop_indices s)"
      show "m < length av \<and> m < length lns \<and>
        ?lvi[l := length ?red] ! m < length (?red @ [l]) \<and>
        av ! ((?red @ [l]) ! (?lvi[l := length ?red] ! m)) = av ! m"
      proof (cases "m = l")
        case True
        with new_inv(2,3) shape(2) show ?thesis by simp
      next
        case False
        with m have "m \<in> assigned_loop_indices s" by simp
        from asg[OF this] False show ?thesis by (simp add: nth_append)
      qed
    qed
    have 6: "inv_unassigned lns u s'"
      unfolding inv_unassigned_def f using unasg by simp
    from 1 2 3 4 5 6 show ?thesis by (simp add: merge_inv_def)
  next
    case (reuse_inv p j)
    have f: "vertex_count s' = vertex_count s" "reduced_vertex_indices s' = ?red"
      "loop_vertex_index_array s' = ?lvi[l := j]"
      "vertex_indices_normals s' = vertex_indices_normals s"
      "inv_vertex_indices s' = inv_vertex_indices s"
      "assigned_loop_indices s' = insert l (assigned_loop_indices s)"
      by (simp_all add: reuse_inv(7))
    have 1: "inv_shape av lns s'"
      using shape by (auto simp: inv_shape_def f)
    have 2: "inv_primary av s'"
      using prim by (simp add: inv_primary_def f)
    have 3: "inv_secondary av s'"
      using sec by (simp add: inv_secondary_def f)
    have 4: "inv_cover av s'"
      using cover by (simp add: inv_cover_def f)
    have 5: "inv_assigned av lns s'"
      unfolding inv_assigned_def f
    proof (intro ballI)
      fix m assume m: "m \<in> insert l (assigned_loop_indices s)"
      show "m < length av \<and> m < length lns \<and>
        ?lvi[l := j] ! m < length ?red \<and> av ! (?red ! (?lvi[l := j] ! m)) = av ! m"
      proof (cases "m = l")
        case True
        with reuse_inv(2,3) shape(2) sec[OF reuse_inv(6)] show ?thesis by simp
      next
        case False
        with m have "m \<in> assigned_loop_indices s" by simp
        from asg[OF this] False show ?thesis by simp
      qed
    qed
    have 6: "inv_unassigned lns u s'"
      unfolding inv_unassigned_def f using unasg by simp
    from 1 2 3 4 5 6 show ?thesis by (simp add: merge_inv_def)
  next
    case (reuse p)
    have f: "vertex_count s' = vertex_count s" "reduced_vertex_indices s' = ?red"
      "loop_vertex_index_array s' = ?lvi[l := fst p]"
      "vertex_indices_normals s' = vertex_indices_normals s"
      "inv_vertex_indices s' = inv_vertex_indices s"
      "assigned_loop_indices s' = insert l (assigned_loop_indices s)"
      by (simp_all add: reuse(6))
    have 1: "inv_shape av lns s'"
      using shape by (auto simp: inv_shape_def f)
    have 2: "inv_primary av s'"
      using prim by (simp add: inv_primary_def f)
    have 3: "inv_secondary av s'"
      using sec by (simp add: inv_secondary_def f)
    have 4: "inv_cover av s'"
      using cover by (simp add: inv_cover_def f)
    have 5: "inv_assigned av lns s'"
      unfolding inv_assigned_def f
    proof (intro ballI)
      fix m assume m: "m \<in> insert l (assigned_loop_indices s)"
      show "m < length av \<and> m < length lns \<and>
        ?lvi[l := fst p] ! m < length ?red \<and> av ! (?red ! (?lvi[l := fst p] ! m)) = av ! m"
      proof (cases "m = l")
        case True
        with reuse(2,3) shape(2) prim[OF reuse(4)] show ?thesis by simp
      next
        case False
        with m have "m \<in> assigned_loop_indices s" by simp
        from asg[OF this] False show ?thesis by simp
      qed
    qed
    have 6: "inv_unassigned lns u s'"
      unfolding inv_unassigned_def f using unasg by simp
    from 1 2 3 4 5 6 show ?thesis by (simp add: merge_inv_def)
  qed
qed

lemma fold_err_invariant:
  assumes "fold_err f xs s = Inr s'" "P s"
    and "\<And>x t t'. x \<in> set xs \<Longrightarrow> P t \<Longrightarrow> f x t = Inr t' \<Longrightarrow> P t'"
  shows "P s'"
  using assms
proof (induction xs arbitrary: s)
  case Nil
  then show ?case by simp
next
  case (Cons x xs)
  from Cons.prems(1) obtain t where t: "f x s = Inr t" "fold_err f xs t = Inr s'"
    by (auto split: sum.splits)
  have "P t" using Cons.prems(3)[of x s t] Cons.prems(2) t(1) by simp
  show ?case
  proof (rule Cons.IH[OF t(2) \<open>P t\<close>])
    fix y r r' assume "y \<in> set xs" "P r" "f y r = Inr r'"
    then show "P r'" using Cons.prems(3)[of y r r'] by simp
  qed
qed

lemma assign_loop_assigned:
  assumes "assign_loop av lns l s = Inr s'"
  shows "assigned_loop_indices s' = insert l (assigned_loop_indices s)"
  using assms by (cases rule: assign_loop_cases) auto

lemma assign_triangle_inv:
  assumes "merge_inv av lns u s" "assign_triangle av lns t s = Inr s'"
  shows "merge_inv av lns u s'"
proof -
  obtain l0 l1 l2 where t: "t = (l0, l1, l2)" by (cases t)
  from assms(2) have "fold_err (assign_loop av lns) [l0, l1, l2] s = Inr s'"
    by (simp add: assign_triangle_def t)
  then show ?thesis
    by (rule fold_err_invariant[where P = "merge_inv av lns u"]) (use assms(1) assign_loop_inv in blast)+
qed

lemma assign_triangle_assigned:
  assumes "assign_triangle av lns t s = Inr s'"
  shows "assigned_loop_indices s' = triangle_loops t \<union> assigned_loop_indices s"
proof -
  obtain l0 l1 l2 where t: "t = (l0, l1, l2)" by (cases t)
  from assms obtain s1 s2 where
    "assign_loop av lns l0 s = Inr s1" "assign_loop av lns l1 s1 = Inr s2"
    "assign_loop av lns l2 s2 = Inr s'"
    by (auto simp: assign_triangle_def t split: sum.splits)
  then show ?thesis
    by (auto simp: t triangle_loops_def dest!: assign_loop_assigned)
qed

lemma assign_triangles_inv:
  assumes "fold_err (assign_triangle av lns) ts s = Inr s'" "merge_inv av lns u s"
  shows "merge_inv av lns u s'"
  using assms(1,2)
  by (rule fold_err_invariant) (rule assign_triangle_inv)

lemma assign_triangles_assigned:
  assumes "fold_err (assign_triangle av lns) ts s = Inr s'"
  shows "assigned_loop_indices s' = (\<Union>t\<in>set ts. triangle_loops t) \<union> assigned_loop_indices s"
  using assms
proof (induction ts arbitrary: s)
  case Nil
  then show ?case by simp
next
  case (Cons t ts)
  from Cons.prems obtain s1 where s1: "assign_triangle av lns t s = Inr s1"
    "fold_err (assign_triangle av lns) ts s1 = Inr s'"
    by (auto split: sum.splits)
  from Cons.IH[OF s1(2)] assign_triangle_assigned[OF s1(1)] show ?case by auto
qed

lemma face_loops_tag_face [simp]: "face_loops (tag_face m t) = triangle_loops t"
  by (cases t) (simp add: face_loops_def tag_face_def triangle_loops_def)

lemma merge_submesh_inv:
  assumes "blocks_inv av lns u st" "merge_submesh av lns sm st = Inr st'"
  shows "blocks_inv av lns u st'"
proof -
  obtain submesh material_index where sm: "sm = (submesh, material_index)" by (cases sm)
  obtain s off blocks where st: "st = (s, off, blocks)" by (cases st)
  from assms(2) obtain face_set where fs: "first (face_sets submesh) = Inr face_set"
    by (auto simp: merge_submesh_def sm st split: sum.splits)
  with assms(2) obtain s' where
    run: "fold_err (assign_triangle av lns) (map (offset_triangle off) face_set) s = Inr s'"
    by (auto simp: merge_submesh_def sm st Let_def split: sum.splits)
  with assms(2) fs obtain va where va: "first (vertex_arrays submesh) = Inr va"
    by (auto simp: merge_submesh_def sm st Let_def split: sum.splits)
  with assms(2) fs run have
    st': "st' = (s', off + length (array va),
        blocks @ [map (tag_face material_index) (map (offset_triangle off) face_set)])"
    by (simp add: merge_submesh_def sm st Let_def del: map_map)
  from assms(1) have inv: "merge_inv av lns u s"
    and asg: "assigned_loop_indices s = (\<Union>f\<in>set (concat blocks). face_loops f)"
    by (simp_all add: blocks_inv_def st)
  have "merge_inv av lns u s'" using run inv by (rule assign_triangles_inv)
  moreover have "assigned_loop_indices s' =
      (\<Union>f\<in>set (concat (blocks @ [map (tag_face material_index) (map (offset_triangle off) face_set)])). face_loops f)"
    using assign_triangles_assigned[OF run] asg by auto
  ultimately show ?thesis by (simp add: blocks_inv_def st' Un_commute)
qed

lemma np_row_stack_faces:
  assumes "np_row_stack blocks = Inr (fs, c)"
  shows "fs = concat blocks"
  using assms
  by (auto simp: np_row_stack_def list_all_iff split: if_splits)

text \<open>What the invariants give for a returned result.\<close>

lemma merge_vertices_result:
  assumes "merge_vertices sms av mis lns u = Inr (vd, lvi, fs, c)"
  obtains s where "merge_inv av lns u s"
    "assigned_loop_indices s = (\<Union>f\<in>set fs. face_loops f)"
    "vd = map (\<lambda>i. av ! i) (reduced_vertex_indices s)"
    "lvi = loop_vertex_index_array s"
proof -
  from assms obtain s off blocks where
    run: "fold_err (merge_submesh av lns) (zip sms mis)
            (merge_init (np_empty u (length lns)), 0, []) = Inr (s, off, blocks)"
    and stack: "np_row_stack blocks = Inr (fs, c)"
    and res: "vd = map (\<lambda>i. av ! i) (reduced_vertex_indices s)" "lvi = loop_vertex_index_array s"
    by (auto simp: merge_vertices_def split: sum.splits prod.splits)
  have "blocks_inv av lns u (merge_init (np_empty u (length lns)), 0, [])"
    by (simp add: blocks_inv_def merge_inv_init) (simp add: merge_init_def)
  with run have "blocks_inv av lns u (s, off, blocks)"
    by (rule fold_err_invariant) (rule merge_submesh_inv)
  then have "merge_inv av lns u s"
    "assigned_loop_indices s = (\<Union>f\<in>set fs. face_loops f)"
    using np_row_stack_faces[OF stack] by (simp_all add: blocks_inv_def)
  with res that show thesis by blast
qed

lemma card_keyed_le_one: "card {j. m = Some j} \<le> 1"
proof (cases m)
  case None
  then show ?thesis by simp
next
  case (Some i)
  then have "{j. m = Some j} = {i}" by auto
  then show ?thesis by simp
qed

lemma finite_keyed: "finite {j. m = Some j}"
proof (cases m)
  case None
  then show ?thesis by simp
next
  case (Some i)
  then have "{j. m = Some j} = {i}" by auto
  then show ?thesis by simp
qed

text \<open>
  Claim C2. Whatever \<^verbatim>\<open>merge_vertices\<close> is given, when it returns, at most two rows of
  the \<^verbatim>\<open>vertex_data\<close> it returns equal any one raw key: a row is appended only when its
  key enters the primary or the secondary table, and a key enters each once.
\<close>

theorem merge_vertices_at_most_two_variants:
  assumes "merge_vertices submeshes all_vertices submesh_material_indices loop_normals uninitialized
             = Inr (vertex_data_out, loop_vertex_indices_out, faces_out, columns)"
  shows "length (filter (\<lambda>row. row = raw_key) vertex_data_out) \<le> 2"
proof -
  from assms obtain s where inv: "merge_inv all_vertices loop_normals uninitialized s"
    and vd: "vertex_data_out = map (\<lambda>i. all_vertices ! i) (reduced_vertex_indices s)"
    by (rule merge_vertices_result)
  let ?P = "{j. map_option fst (vertex_indices_normals s raw_key) = Some j}"
  let ?S = "{j. inv_vertex_indices s raw_key = Some j}"
  let ?J = "{j. j < length vertex_data_out \<and> vertex_data_out ! j = raw_key}"
  from inv have cover: "inv_cover all_vertices s" by (simp add: merge_inv_def)
  have "?J \<subseteq> ?P \<union> ?S"
  proof
    fix j assume "j \<in> ?J"
    then have j: "j < length (reduced_vertex_indices s)"
      "all_vertices ! (reduced_vertex_indices s ! j) = raw_key"
      by (auto simp: vd)
    from cover j(1) have
      "map_option fst (vertex_indices_normals s (all_vertices ! (reduced_vertex_indices s ! j))) = Some j \<or>
       inv_vertex_indices s (all_vertices ! (reduced_vertex_indices s ! j)) = Some j"
      unfolding inv_cover_def by blast
    with j(2) show "j \<in> ?P \<union> ?S" by simp
  qed
  moreover have "finite (?P \<union> ?S)"
    by (rule finite_UnI) (rule finite_keyed)+
  ultimately have "card ?J \<le> card (?P \<union> ?S)" by (intro card_mono)
  also have "\<dots> \<le> card ?P + card ?S" by (rule card_Un_le)
  also have "\<dots> \<le> 2"
    using card_keyed_le_one[of "map_option fst (vertex_indices_normals s raw_key)"]
      card_keyed_le_one[of "inv_vertex_indices s raw_key"] by linarith
  finally have "card ?J \<le> 2" .
  moreover have "length (filter (\<lambda>row. row = raw_key) vertex_data_out) = card ?J"
    by (simp add: length_filter_conv_card)
  ultimately show ?thesis by simp
qed

lemmas merge_eval = merge_vertices_def merge_submesh_def first_def offset_triangle_def
  assign_triangle_def assign_loop_def merge_init_def np_empty_def upt_rec np_dot_def
  np_row_stack_def tag_face_def Let_def one_triangle_def key_a_def key_b_def

theorem merge_vertices_at_most_two_variants_witness:
  "merge_vertices [one_triangle] [key_a, key_a, key_a] [0]
      [(0, 1, 0), (0, -1, 0), (0, - (95 / 100), 31 / 100)] (\<lambda>i. 0)
     = Inr ([key_a, key_a], [0, 1, 1], [(0, 1, 2, 0)], 4) \<and>
   length (filter (\<lambda>row. row = key_a) [key_a, key_a]) \<le> 2"
proof -
  have e: "merge_vertices [one_triangle] [key_a, key_a, key_a] [0]
      [(0, 1, 0), (0, -1, 0), (0, - (95 / 100), 31 / 100)] (\<lambda>i. 0)
     = Inr ([key_a, key_a], [0, 1, 1], [(0, 1, 2, 0)], 4)"
    by (simp add: merge_eval)
  from merge_vertices_at_most_two_variants[OF e, of key_a] e show ?thesis by simp
qed

lemma assign_loop_reuse:
  assumes "l \<notin> assigned_loop_indices s" "l < length av" "l < length lns"
    and "vertex_indices_normals s (av ! l) = Some (i, n)"
    and "- (9 / 10) \<le> np_dot (lns ! l) n"
  shows "assign_loop av lns l s =
     Inr (s\<lparr>assigned_loop_indices := insert l (assigned_loop_indices s),
            loop_vertex_index_array := (loop_vertex_index_array s)[l := i]\<rparr>)"
  using assms by (simp add: assign_loop_def Let_def)

lemma assign_loop_new_inverted:
  assumes "l \<notin> assigned_loop_indices s" "l < length av" "l < length lns"
    and "vertex_indices_normals s (av ! l) = Some (i, n)"
    and "np_dot (lns ! l) n < - (9 / 10)"
    and "inv_vertex_indices s (av ! l) = None"
  shows "assign_loop av lns l s =
     Inr (s\<lparr>assigned_loop_indices := insert l (assigned_loop_indices s),
            inv_vertex_indices := (inv_vertex_indices s)(av ! l \<mapsto> vertex_count s),
            reduced_vertex_indices := reduced_vertex_indices s @ [l],
            loop_vertex_index_array := (loop_vertex_index_array s)[l := vertex_count s],
            vertex_count := vertex_count s + 1\<rparr>)"
  using assms by (simp add: assign_loop_def Let_def)

lemma assign_loop_reuse_inverted:
  assumes "l \<notin> assigned_loop_indices s" "l < length av" "l < length lns"
    and "vertex_indices_normals s (av ! l) = Some (i, n)"
    and "np_dot (lns ! l) n < - (9 / 10)"
    and "inv_vertex_indices s (av ! l) = Some j"
  shows "assign_loop av lns l s =
     Inr (s\<lparr>assigned_loop_indices := insert l (assigned_loop_indices s),
            loop_vertex_index_array := (loop_vertex_index_array s)[l := j]\<rparr>)"
  using assms by (simp add: assign_loop_def Let_def)


text \<open>
  Claim C3. A loop that no earlier triangle named and whose raw key is in the primary table,
  stored there with vertex index \<open>i\<close> and normal \<open>n\<close>: if the dot product of the loop's
  normal with \<open>n\<close> is at least \<open>-0.9\<close>, the loop gets \<open>i\<close>; if it is below \<open>-0.9\<close> and the
  key is not in the secondary table, a new vertex is created and entered there; if it is
  below \<open>-0.9\<close> and the secondary table holds \<open>j\<close>, the loop gets \<open>j\<close>, whatever its normal.
  And the three examples of the specification: normals \<open>(0,1,0)\<close> and \<open>(0,0.99,-0.14)\<close>
  merge to one vertex; \<open>(0,1,0)\<close> and \<open>(0,-1,0)\<close> give two; a third loop with normal
  \<open>(0,-0.95,0.31)\<close> reuses the inverted vertex.
\<close>

theorem vertex_reducer_tie_break:
  "(l \<notin> assigned_loop_indices s \<and> l < length av \<and> l < length lns \<and>
    vertex_indices_normals s (av ! l) = Some (i, n) \<longrightarrow>
      (- (9 / 10) \<le> np_dot (lns ! l) n \<longrightarrow>
         assign_loop av lns l s =
           Inr (s\<lparr>assigned_loop_indices := insert l (assigned_loop_indices s),
                  loop_vertex_index_array := (loop_vertex_index_array s)[l := i]\<rparr>)) \<and>
      (np_dot (lns ! l) n < - (9 / 10) \<and> inv_vertex_indices s (av ! l) = None \<longrightarrow>
         assign_loop av lns l s =
           Inr (s\<lparr>assigned_loop_indices := insert l (assigned_loop_indices s),
                  inv_vertex_indices := (inv_vertex_indices s)(av ! l \<mapsto> vertex_count s),
                  reduced_vertex_indices := reduced_vertex_indices s @ [l],
                  loop_vertex_index_array := (loop_vertex_index_array s)[l := vertex_count s],
                  vertex_count := vertex_count s + 1\<rparr>)) \<and>
      (np_dot (lns ! l) n < - (9 / 10) \<and> inv_vertex_indices s (av ! l) = Some j \<longrightarrow>
         assign_loop av lns l s =
           Inr (s\<lparr>assigned_loop_indices := insert l (assigned_loop_indices s),
                  loop_vertex_index_array := (loop_vertex_index_array s)[l := j]\<rparr>))) \<and>
   merge_vertices [one_triangle] [key_a, key_a, key_b] [0]
       [(0, 1, 0), (0, 99 / 100, - (14 / 100)), (0, 1, 0)] u
     = Inr ([key_a, key_b], [0, 0, 1], [(0, 1, 2, 0)], 4) \<and>
   merge_vertices [one_triangle] [key_a, key_a, key_b] [0]
       [(0, 1, 0), (0, - 1, 0), (0, 1, 0)] u
     = Inr ([key_a, key_a, key_b], [0, 1, 2], [(0, 1, 2, 0)], 4) \<and>
   merge_vertices [one_triangle] [key_a, key_a, key_a] [0]
       [(0, 1, 0), (0, - 1, 0), (0, - (95 / 100), 31 / 100)] u
     = Inr ([key_a, key_a], [0, 1, 1], [(0, 1, 2, 0)], 4)"
proof -
  have "merge_vertices [one_triangle] [key_a, key_a, key_b] [0]
       [(0, 1, 0), (0, 99 / 100, - (14 / 100)), (0, 1, 0)] u
     = Inr ([key_a, key_b], [0, 0, 1], [(0, 1, 2, 0)], 4)"
    by (simp add: merge_eval)
  moreover have "merge_vertices [one_triangle] [key_a, key_a, key_b] [0]
       [(0, 1, 0), (0, - 1, 0), (0, 1, 0)] u
     = Inr ([key_a, key_a, key_b], [0, 1, 2], [(0, 1, 2, 0)], 4)"
    by (simp add: merge_eval)
  moreover have "merge_vertices [one_triangle] [key_a, key_a, key_a] [0]
       [(0, 1, 0), (0, - 1, 0), (0, - (95 / 100), 31 / 100)] u
     = Inr ([key_a, key_a], [0, 1, 1], [(0, 1, 2, 0)], 4)"
    by (simp add: merge_eval)
  ultimately show ?thesis
    using assign_loop_reuse[of l s av lns i n] assign_loop_new_inverted[of l s av lns i n]
      assign_loop_reuse_inverted[of l s av lns i n j]
    by blast
qed

theorem vertex_reducer_tie_break_witness:
  "assign_loop [key_a, key_a, key_a] [(0, 1, 0), (0, - 1, 0), (0, - (95 / 100), 31 / 100)] 1
      after_first_loop =
     Inr (after_first_loop\<lparr>assigned_loop_indices := {1, 0},
            inv_vertex_indices := [key_a \<mapsto> 1],
            reduced_vertex_indices := [0, 1],
            loop_vertex_index_array := [0, 1, 0],
            vertex_count := 2\<rparr>)"
proof -
  have h: "1 \<notin> assigned_loop_indices after_first_loop \<and>
      (1::nat) < length [key_a, key_a, key_a] \<and>
      (1::nat) < length [(0, 1, 0), (0, - 1, 0), (0, - (95 / 100), 31 / 100) :: vec3] \<and>
      vertex_indices_normals after_first_loop ([key_a, key_a, key_a] ! 1) = Some (0, (0, 1, 0))"
    by (simp add: after_first_loop_def)
  have d: "np_dot ([(0, 1, 0), (0, - 1, 0), (0, - (95 / 100), 31 / 100)] ! 1) (0, 1, 0) < - (9 / 10) \<and>
      inv_vertex_indices after_first_loop ([key_a, key_a, key_a] ! 1) = None"
    by (simp add: after_first_loop_def np_dot_def)
  from vertex_reducer_tie_break[of 1 after_first_loop "[key_a, key_a, key_a]"
      "[(0, 1, 0), (0, - 1, 0), (0, - (95 / 100), 31 / 100)]" 0 "(0, 1, 0)" 0 "\<lambda>i. 0"] h d
  have "assign_loop [key_a, key_a, key_a] [(0, 1, 0), (0, - 1, 0), (0, - (95 / 100), 31 / 100)] 1
      after_first_loop =
     Inr (after_first_loop\<lparr>assigned_loop_indices := insert 1 (assigned_loop_indices after_first_loop),
            inv_vertex_indices := (inv_vertex_indices after_first_loop)([key_a, key_a, key_a] ! 1 \<mapsto> vertex_count after_first_loop),
            reduced_vertex_indices := reduced_vertex_indices after_first_loop @ [1],
            loop_vertex_index_array := (loop_vertex_index_array after_first_loop)[1 := vertex_count after_first_loop],
            vertex_count := vertex_count after_first_loop + 1\<rparr>)"
    by blast
  then show ?thesis by (simp add: after_first_loop_def)
qed

subsection \<open>\<^verbatim>\<open>from_flver\<close>: proofs\<close>

lemma merge_vertices_unreferenced:
  assumes "merge_vertices sms av mis lns u = Inr (vd, lvi, fs, c)"
    and "l < length lns" "l \<notin> (\<Union>f\<in>set fs. face_loops f)"
  shows "lvi ! l = u l"
proof -
  from assms(1) obtain s where inv: "merge_inv av lns u s"
    and asg: "assigned_loop_indices s = (\<Union>f\<in>set fs. face_loops f)"
    and lvi: "lvi = loop_vertex_index_array s"
    by (rule merge_vertices_result)
  from inv have "inv_unassigned lns u s" by (simp add: merge_inv_def)
  with assms(2,3) asg lvi show ?thesis by (simp add: inv_unassigned_def)
qed

lemma merge_vertices_length:
  assumes "merge_vertices sms av mis lns u = Inr (vd, lvi, fs, c)"
  shows "length lvi = length lns"
proof -
  from assms(1) obtain s where inv: "merge_inv av lns u s"
    and lvi: "lvi = loop_vertex_index_array s"
    by (rule merge_vertices_result)
  then show ?thesis by (simp add: merge_inv_def inv_shape_def)
qed


lemma from_flver_result:
  assumes "from_flver submeshes submesh_material_indices material_uv_layer_names uninitialized = Inr mesh"
  obtains valid av loops uv_keys vd lvi fs c where
    "valid_submeshes (case submesh_material_indices of None \<Rightarrow> [0..<length submeshes]
        | Some given \<Rightarrow> if given = [] then [0..<length submeshes] else given)
       (enumerate 0 submeshes) = Inr valid"
    "build_stacked_loops (map fst valid) (map snd valid) material_uv_layer_names = Inr (av, loops, uv_keys)"
    "merge_vertices (map fst valid) av (map snd valid) (map normal_of loops) uninitialized
       = Inr (vd, lvi, fs, c)"
    "mesh = \<lparr>vertex_data = vd, loop_vertex_indices = lvi, loop_data = loops,
             loop_uvs_keys = uv_keys, faces = fs, faces_columns = c\<rparr>"
proof -
  let ?indices = "case submesh_material_indices of None \<Rightarrow> [0..<length submeshes]
      | Some given \<Rightarrow> if given = [] then [0..<length submeshes] else given"
  from assms have ne: "submeshes \<noteq> []" by (auto simp: from_flver_def split: if_splits)
  with assms obtain valid where v: "valid_submeshes ?indices (enumerate 0 submeshes) = Inr valid"
    by (auto simp: from_flver_def Let_def split: sum.splits)
  with assms ne obtain av loops uv_keys where
    b: "build_stacked_loops (map fst valid) (map snd valid) material_uv_layer_names = Inr (av, loops, uv_keys)"
    by (auto simp: from_flver_def Let_def split: sum.splits)
  with assms ne v obtain vd lvi fs c where
    m: "merge_vertices (map fst valid) av (map snd valid) (map normal_of loops) uninitialized
       = Inr (vd, lvi, fs, c)"
    by (auto simp: from_flver_def Let_def split: sum.splits)
  with assms ne v b have "mesh = \<lparr>vertex_data = vd, loop_vertex_indices = lvi, loop_data = loops,
             loop_uvs_keys = uv_keys, faces = fs, faces_columns = c\<rparr>"
    by (simp add: from_flver_def Let_def)
  with v b m show thesis by (rule that)
qed

text \<open>
  Claim C6 does not hold of the code: \<^verbatim>\<open>merge_vertices\<close> allocates
  \<^verbatim>\<open>loop_vertex_indices\<close> with \<^verbatim>\<open>np.empty\<close> and writes the entries of the loops that a
  triangle names, and no other. The entry of a loop that no face of the merged mesh names
  is what the memory held, for every FLVER and every such loop.
\<close>

theorem from_flver_unreferenced_loop:
  assumes "from_flver submeshes submesh_material_indices material_uv_layer_names uninitialized = Inr mesh"
    and "l < length (loop_vertex_indices mesh)"
    and "l \<notin> (\<Union>f\<in>set (faces mesh). face_loops f)"
  shows "loop_vertex_indices mesh ! l = uninitialized l"
proof -
  from assms(1) obtain valid av loops uv_keys vd lvi fs c where
    "valid_submeshes (case submesh_material_indices of None \<Rightarrow> [0..<length submeshes]
        | Some given \<Rightarrow> if given = [] then [0..<length submeshes] else given)
       (enumerate 0 submeshes) = Inr valid"
    and "build_stacked_loops (map fst valid) (map snd valid) material_uv_layer_names = Inr (av, loops, uv_keys)"
    and m: "merge_vertices (map fst valid) av (map snd valid) (map normal_of loops) uninitialized
       = Inr (vd, lvi, fs, c)"
    and "mesh = \<lparr>vertex_data = vd, loop_vertex_indices = lvi, loop_data = loops,
             loop_uvs_keys = uv_keys, faces = fs, faces_columns = c\<rparr>"
    by (rule from_flver_result)
  then have mesh: "loop_vertex_indices mesh = lvi" "faces mesh = fs" by simp_all
  from merge_vertices_length[OF m] assms(2) mesh have "l < length (map normal_of loops)" by simp
  from merge_vertices_unreferenced[OF m this] assms(3) mesh show ?thesis by simp
qed

lemmas flver_eval = from_flver_def valid_submeshes.simps has_nan_position_def build_stacked_loops_def
  stack_submesh_def stack_vertex_def normal_of_def enumerate_eq_zip

theorem from_flver_unreferenced_loop_witness:
  "from_flver [spare_vertex] None None (\<lambda>i. 7) =
     Inr \<lparr>vertex_data = [key_a, key_b, key_c], loop_vertex_indices = [0, 1, 2, 7],
          loop_data = [plain_loop, plain_loop, plain_loop, plain_loop], loop_uvs_keys = [],
          faces = [(0, 1, 2, 0)], faces_columns = 4\<rparr> \<and>
   \<not> ([0, 1, 2, 7] ! 3 < length [key_a, key_b, key_c])"
proof -
  have e: "from_flver [spare_vertex] None None (\<lambda>i. 7) =
     Inr \<lparr>vertex_data = [key_a, key_b, key_c], loop_vertex_indices = [0, 1, 2, 7],
          loop_data = [plain_loop, plain_loop, plain_loop, plain_loop], loop_uvs_keys = [],
          faces = [(0, 1, 2, 0)], faces_columns = 4\<rparr>"
    by (simp add: flver_eval merge_vertices_def merge_submesh_def first_def offset_triangle_def
      assign_triangle_def assign_loop_def merge_init_def np_empty_def upt_rec np_dot_def
      np_row_stack_def tag_face_def Let_def spare_vertex_def key_a_def key_b_def key_c_def key_d_def
      plain_loop_def)
  have "loop_vertex_indices \<lparr>vertex_data = [key_a, key_b, key_c], loop_vertex_indices = [0, 1, 2, 7],
          loop_data = [plain_loop, plain_loop, plain_loop, plain_loop], loop_uvs_keys = [],
          faces = [(0, 1, 2, 0)], faces_columns = 4\<rparr> ! 3 = (\<lambda>i. 7) 3"
    by (rule from_flver_unreferenced_loop[OF e]) (simp_all add: face_loops_def)
  with e show ?thesis by simp
qed

subsection \<open>The bone-count-bounded subsplit: proofs\<close>

lemma subsplit_scan_snoc:
  "subsplit_scan mb (fs @ [f]) = subsplit_step mb (length fs, f) (subsplit_scan mb fs)"
  by (simp add: subsplit_scan_def enumerate_append_eq)

lemma subsplit_scan_Nil: "subsplit_scan mb [] = ([0], [], {- 1})"
  by (simp add: subsplit_scan_def)

lemma bones_of_snoc: "bones_of (fs @ [f]) = bones_of fs \<union> set f"
  by (auto simp: bones_of_def)

lemma bones_of_single: "bones_of [f] = set f"
  by (simp add: bones_of_def)

lemma finite_bones_of: "finite (bones_of fs)"
  by (simp add: bones_of_def)

text \<open>The shape of the boundary list, and the running set as the bones of the faces since
  the last boundary.\<close>

lemma subsplit_scan_shape:
  assumes "subsplit_scan mb fs = (fi, bi, U)"
  shows "fi \<noteq> [] \<and> hd fi = 0 \<and> (\<forall>b\<in>set (tl fi). b < length fs) \<and> last fi \<le> length fs \<and>
         length fi = length bi + 1 \<and>
         U = insert (- 1) (bones_of (drop (last fi) fs))"
  using assms
proof (induction fs arbitrary: fi bi U rule: rev_induct)
  case Nil
  then show ?case by (auto simp: subsplit_scan_Nil bones_of_def)
next
  case (snoc f fs)
  obtain fi0 bi0 U0 where s0: "subsplit_scan mb fs = (fi0, bi0, U0)"
    by (cases "subsplit_scan mb fs")
  note ih = snoc.IH[OF s0]
  from ih have ne: "fi0 \<noteq> []" and hd0: "hd fi0 = 0" and lt: "\<forall>b\<in>set (tl fi0). b < length fs"
    and last0: "last fi0 \<le> length fs" and len0: "length fi0 = length bi0 + 1"
    and U0: "U0 = insert (- 1) (bones_of (drop (last fi0) fs))"
    by blast+
  show ?case
  proof (cases "mb < card (U0 \<union> set f)")
    case True
    with snoc.prems s0 have eq: "fi = fi0 @ [length fs]" "bi = bi0 @ [sorted_list_of_set (U0 - {- 1})]"
      "U = {- 1} \<union> set f"
      by (simp_all add: subsplit_scan_snoc subsplit_step_def Let_def)
    from ne hd0 lt len0 show ?thesis
      by (auto simp: eq bones_of_single less_Suc_eq)
  next
    case False
    with snoc.prems s0 have eq: "fi = fi0" "bi = bi0" "U = U0 \<union> set f"
      by (simp_all add: subsplit_scan_snoc subsplit_step_def Let_def)
    from ne hd0 lt last0 len0 U0 show ?thesis
      by (auto simp: eq bones_of_snoc less_Suc_eq)
  qed
qed




lemma fold_update_range:
  "x \<in> set (fold (\<lambda>k l. l[f k := g k]) ks l) \<Longrightarrow> x \<in> set l \<or> x \<in> g ` set ks"
proof (induction ks arbitrary: l)
  case Nil
  then show ?case by simp
next
  case (Cons k ks)
  from Cons.IH[of "l[f k := g k]"] Cons.prems
  have "x \<in> set (l[f k := g k]) \<or> x \<in> g ` set ks" by simp
  moreover have "set (l[f k := g k]) \<subseteq> insert (g k) (set l)" by (rule set_update_subset_insert)
  ultimately show ?case by auto
qed

lemma lut_assign_range:
  assumes "x \<in> set (lut_assign sbi lo lut)"
  shows "x \<in> set lut \<or> (\<exists>k<length sbi. x = int k)"
  using fold_update_range[of x "\<lambda>k. nat (sbi ! k - lo)" int "[0..<length sbi]" lut] assms
  by (auto simp: lut_assign_def)

lemma make_bone_indices_local_range:
  assumes "make_bone_indices_local b sbi = Inr out"
  shows "map length out = map length b \<and>
         (\<forall>row\<in>set out. \<forall>x\<in>set row. 0 \<le> x \<and> nat x < length sbi)"
proof -
  from assms have ne: "concat b \<noteq> []" "sbi \<noteq> []"
    by (auto simp: make_bone_indices_local_def np_min_def np_max_def split: if_splits sum.splits)
  define lo where "lo = min (Min (set (concat b))) (Min (set sbi))"
  define hi where "hi = max (Max (set (concat b))) (Max (set sbi))"
  define lut where "lut = lut_assign sbi lo (replicate (nat (hi - lo + 1)) 0)"
  have out: "out = map (map (\<lambda>v. lut ! nat (v - lo))) b"
    using make_bone_indices_local_Inr[OF ne] assms by (simp add: lut_def lo_def hi_def)
  have len: "length lut = nat (hi - lo + 1)"
    by (simp add: lut_def length_lut_assign)
  have bounds: "lo \<le> v \<and> v \<le> hi" if "v \<in> set (concat b)" for v
    using that ne(1) by (auto simp: lo_def hi_def min_le_iff_disj le_max_iff_disj simp del: set_concat)
  have entry: "0 \<le> lut ! nat (v - lo) \<and> nat (lut ! nat (v - lo)) < length sbi"
    if "v \<in> set (concat b)" for v
  proof -
    from bounds[OF that] len have "nat (v - lo) < length lut" by simp
    then have "lut ! nat (v - lo) \<in> set lut" by simp
    from lut_assign_range[OF this[unfolded lut_def]] ne(2) show ?thesis
      by (auto simp: lut_def)
  qed
  have "\<forall>row\<in>set out. \<forall>x\<in>set row. 0 \<le> x \<and> nat x < length sbi"
  proof (intro ballI)
    fix row x assume "row \<in> set out" "x \<in> set row"
    then obtain r v where "r \<in> set b" "v \<in> set r" "x = lut ! nat (v - lo)"
      by (auto simp: out)
    then have "v \<in> set (concat b)" by auto
    from entry[OF this] \<open>x = lut ! nat (v - lo)\<close> show "0 \<le> x \<and> nat x < length sbi" by simp
  qed
  moreover have "map length out = map length b" by (simp add: out comp_def)
  ultimately show ?thesis by blast
qed

lemma map_err_Inr:
  assumes "map_err f xs = Inr ys"
  shows "\<forall>y\<in>set ys. \<exists>x\<in>set xs. f x = Inr y"
  using assms
proof (induction xs arbitrary: ys)
  case Nil
  then show ?case by simp
next
  case (Cons x xs)
  from Cons.prems obtain y ys' where "f x = Inr y" "map_err f xs = Inr ys'" "ys = y # ys'"
    by (auto split: sum.splits)
  with Cons.IH[of ys'] show ?case by auto
qed

lemma subsplit_scan_bound:
  assumes "\<forall>f\<in>set fs. card (insert (- 1) (set f)) \<le> mb" "1 \<le> mb"
    and "subsplit_scan mb fs = (fi, bi, U)"
  shows "card U \<le> mb \<and> (\<forall>b\<in>set bi. length b + 1 \<le> mb \<and> distinct b \<and> - 1 \<notin> set b)"
  using assms
proof (induction fs arbitrary: fi bi U rule: rev_induct)
  case Nil
  then show ?case by (auto simp: subsplit_scan_Nil)
next
  case (snoc f fs)
  obtain fi0 bi0 U0 where s0: "subsplit_scan mb fs = (fi0, bi0, U0)"
    by (cases "subsplit_scan mb fs")
  from snoc.prems(1) have pre: "\<forall>f\<in>set fs. card (insert (- 1) (set f)) \<le> mb"
    and f: "card (insert (- 1) (set f)) \<le> mb" by simp_all
  from snoc.IH[OF pre snoc.prems(2) s0] have c0: "card U0 \<le> mb"
    and b0: "\<forall>b\<in>set bi0. length b + 1 \<le> mb \<and> distinct b \<and> - 1 \<notin> set b" by blast+
  from subsplit_scan_shape[OF s0] have U0: "U0 = insert (- 1) (bones_of (drop (last fi0) fs))"
    by blast
  then have fin: "finite U0" and mem: "- 1 \<in> U0" by (simp_all add: finite_bones_of)
  show ?case
  proof (cases "mb < card (U0 \<union> set f)")
    case True
    with snoc.prems(3) s0 have eq: "bi = bi0 @ [sorted_list_of_set (U0 - {- 1})]"
      "U = {- 1} \<union> set f"
      by (simp_all add: subsplit_scan_snoc subsplit_step_def Let_def)
    have "length (sorted_list_of_set (U0 - {- 1})) = card U0 - 1"
      using fin mem by simp
    moreover have "0 < card U0" using fin mem by (auto simp: card_gt_0_iff)
    ultimately have "length (sorted_list_of_set (U0 - {- 1})) + 1 \<le> mb"
      using c0 by simp
    moreover have "distinct (sorted_list_of_set (U0 - {- 1}))" by simp
    moreover have "- 1 \<notin> set (sorted_list_of_set (U0 - {- 1}))" using fin by simp
    ultimately show ?thesis using b0 f by (auto simp: eq)
  next
    case False
    with snoc.prems(3) s0 have eq: "bi = bi0" "U = U0 \<union> set f"
      by (simp_all add: subsplit_scan_snoc subsplit_step_def Let_def)
    from False b0 show ?thesis by (simp add: eq)
  qed
qed


lemma length_mask_unused [simp]: "length (mask_unused w b) = 4"
  by (cases w; cases b) (simp add: mask_unused_def vec4_list_def ivec4_list_def)

lemma length_ivec4_list [simp]: "length (ivec4_list b) = 4"
  by (cases b) (simp add: ivec4_list_def)

lemma ivec4_list_of_list: "length bs = 4 \<Longrightarrow> ivec4_list (ivec4_of_list bs) = bs"
proof -
  assume "length bs = 4"
  then obtain a b c d where "bs = [a, b, c, d]"
    by (auto simp: length_Suc_conv numeral_eq_Suc)
  then show ?thesis by (simp add: ivec4_list_def ivec4_of_list_def)
qed

lemma loop_bone_indices_rows:
  "\<forall>r\<in>set (loop_bone_indices ibp umo loops). length r = 4"
  by (auto simp: loop_bone_indices_def)

lemma make_subsplit_local:
  assumes "make_subsplit mi loops (loop_bone_indices ibp umo loops) fi bi i = Inr (m, rows, bones)"
  shows "bones = bi ! i \<and>
         (\<forall>row\<in>set rows. \<forall>b\<in>set (ivec4_list (bone_indices_of (fst row))). 0 \<le> b \<and> nat b < length bones)"
proof -
  let ?n = "fi ! (i + 1) * 3 - fi ! i * 3"
  let ?glob = "take ?n (drop (fi ! i * 3) (loop_bone_indices ibp umo loops))"
  let ?sub = "take ?n (drop (fi ! i * 3) loops)"
  from assms obtain loc where loc: "make_bone_indices_local ?glob (bi ! i) = Inr loc"
    and rows: "rows = map (\<lambda>(row, local). ((position_of (fst row), bone_weights_of (fst row),
                  ivec4_of_list local), snd row)) (zip ?sub loc)"
    and bones: "bones = bi ! i"
    by (auto simp: make_subsplit_def Let_def split: sum.splits)
  from make_bone_indices_local_range[OF loc] have shape: "map length loc = map length ?glob"
    and rng: "\<forall>r\<in>set loc. \<forall>x\<in>set r. 0 \<le> x \<and> nat x < length (bi ! i)" by blast+
  have four: "\<forall>r\<in>set loc. length r = 4"
  proof
    fix r assume "r \<in> set loc"
    then have "length r \<in> set (map length loc)" by simp
    then have "length r \<in> set (map length ?glob)" by (simp only: shape)
    then obtain g where "g \<in> set ?glob" "length r = length g" by auto
    moreover from this(1) have "g \<in> set (loop_bone_indices ibp umo loops)"
      by (meson in_set_dropD in_set_takeD)
    ultimately show "length r = 4" using loop_bone_indices_rows by metis
  qed
  have "\<forall>row\<in>set rows. \<forall>b\<in>set (ivec4_list (bone_indices_of (fst row))). 0 \<le> b \<and> nat b < length bones"
  proof (intro ballI)
    fix row b assume row: "row \<in> set rows" and b: "b \<in> set (ivec4_list (bone_indices_of (fst row)))"
    from row obtain r0 l where "(r0, l) \<in> set (zip ?sub loc)"
      and rw: "row = ((position_of (fst r0), bone_weights_of (fst r0), ivec4_of_list l), snd r0)"
      by (auto simp: rows)
    then have l: "l \<in> set loc" by (meson set_zip_rightD)
    with four have "ivec4_list (ivec4_of_list l) = l" by (simp add: ivec4_list_of_list)
    with b rw have "b \<in> set l" by (simp add: bone_indices_of_def)
    with rng l bones show "0 \<le> b \<and> nat b < length bones" by blast
  qed
  with bones show ?thesis by simp
qed

text \<open>
  Claim C5, as amended. Provided no face by itself names more than
  \<open>max_bones_per_submesh\<close> distinct bones besides the sentinel, every subsplit that
  \<^verbatim>\<open>subsplit_faces\<close> returns has a bone list of at most \<open>max_bones_per_submesh\<close> entries,
  free of duplicates and of the sentinel, and every bone index of its loops is a position
  in that list.
\<close>

theorem subsplit_faces_bone_ceiling:
  assumes "subsplit_faces material_index submesh_loops is_bind_pose max_bones_per_submesh
             unused_bone_indices_are_minus_one = Inr subsplits"
    and "\<forall>face\<in>set (face_rows (loop_bone_indices is_bind_pose unused_bone_indices_are_minus_one
                                  submesh_loops)).
           card (insert (- 1) (set face)) \<le> max_bones_per_submesh + 1"
  shows "\<forall>(m, loops, bones)\<in>set subsplits.
           length bones \<le> max_bones_per_submesh \<and> distinct bones \<and> - 1 \<notin> set bones \<and>
           (\<forall>row\<in>set loops. \<forall>b\<in>set (ivec4_list (bone_indices_of (fst row))).
              0 \<le> b \<and> nat b < length bones)"
proof -
  let ?bix = "loop_bone_indices is_bind_pose unused_bone_indices_are_minus_one submesh_loops"
  let ?mb = "max_bones_per_submesh + 1"
  obtain fi bi U where scan: "subsplit_scan ?mb (face_rows ?bix) = (fi, bi, U)"
    by (cases "subsplit_scan ?mb (face_rows ?bix)")
  let ?fi = "fi @ [length submesh_loops div 3]"
  let ?bi = "bi @ [sorted_list_of_set (U - {- 1})]"
  from assms(1) scan have run:
    "map_err (make_subsplit material_index submesh_loops ?bix ?fi ?bi) [0..<length ?fi - 1] = Inr subsplits"
    by (simp add: subsplit_faces_def Let_def split: if_splits)
  from subsplit_scan_shape[OF scan] have len: "length fi = length bi + 1"
    and U: "U = insert (- 1) (bones_of (drop (last fi) (face_rows ?bix)))" by blast+
  then have fin: "finite U" and mem: "- 1 \<in> U" by (simp_all add: finite_bones_of)
  from subsplit_scan_bound[OF assms(2) _ scan] have cU: "card U \<le> ?mb"
    and bound: "\<forall>b\<in>set bi. length b + 1 \<le> ?mb \<and> distinct b \<and> - 1 \<notin> set b" by simp_all
  have "length (sorted_list_of_set (U - {- 1})) = card U - 1" using fin mem by simp
  with cU have last_ok: "length (sorted_list_of_set (U - {- 1})) \<le> max_bones_per_submesh" by simp
  have all_ok: "\<forall>b\<in>set ?bi. length b \<le> max_bones_per_submesh \<and> distinct b \<and> - 1 \<notin> set b"
    using bound last_ok fin by auto
  show ?thesis
  proof (intro ballI, clarify)
    fix m loops bones assume "(m, loops, bones) \<in> set subsplits"
    with map_err_Inr[OF run] obtain i where i: "i < length ?fi - 1"
      and mk: "make_subsplit material_index submesh_loops ?bix ?fi ?bi i = Inr (m, loops, bones)"
      by auto
    from make_subsplit_local[OF mk] have bones: "bones = ?bi ! i"
      and loc: "\<forall>row\<in>set loops. \<forall>b\<in>set (ivec4_list (bone_indices_of (fst row))).
                  0 \<le> b \<and> nat b < length bones" by blast+
    from i len have "i < length ?bi" by simp
    then have "?bi ! i \<in> set ?bi" by (rule nth_mem)
    with all_ok bones have "length bones \<le> max_bones_per_submesh \<and> distinct bones \<and> - 1 \<notin> set bones"
      by blast
    with loc show "length bones \<le> max_bones_per_submesh \<and> distinct bones \<and> - 1 \<notin> set bones \<and>
           (\<forall>row\<in>set loops. \<forall>b\<in>set (ivec4_list (bone_indices_of (fst row))).
              0 \<le> b \<and> nat b < length bones)" by blast
  qed
qed

subsection \<open>The final vertex reduction: proofs\<close>






lemma distinct_first_occurrences [simp]: "distinct (first_occurrences xs)"
  by (induction xs) auto










subsection \<open>\<^verbatim>\<open>split_mesh\<close>: validation of the definitions\<close>

lemma map_err_Inl:
  assumes "x \<in> set xs" "f x = Inl e"
  shows "\<exists>e'. map_err f xs = Inl e'"
  using assms
proof (induction xs)
  case Nil
  then show ?case by simp
next
  case (Cons a xs)
  show ?case
  proof (cases "f a")
    case (Inl e0)
    then show ?thesis by simp
  next
    case (Inr y)
    with Cons.prems have "x \<in> set xs" by auto
    from Cons.IH[OF this Cons.prems(2)] Inr show ?thesis by auto
  qed
qed

lemma get_validated_None:
  "uv_layer_names d = None \<Longrightarrow> get_validated_uv_layer_names d g i = Inl TypeError"
  by (simp add: get_validated_uv_layer_names_def Let_def)

lemma get_validated_empty:
  "uv_layer_names d = Some [] \<Longrightarrow> 0 < get_uv_count (layout d) \<Longrightarrow>
   get_validated_uv_layer_names d g i = Inl ValueError"
  by (simp add: get_validated_uv_layer_names_def Let_def)

lemma get_validated_Inr:
  assumes "get_validated_uv_layer_names d g i = Inr layer_names"
  shows "uv_layer_names d = Some layer_names"
proof (cases "uv_layer_names d")
  case None
  with assms show ?thesis by (simp add: get_validated_uv_layer_names_def Let_def)
next
  case (Some given)
  with assms have len: "length given = get_uv_count (layout d)"
    and res: "layer_names = (if given = [] then map default_uv_layer_name [0..<get_uv_count (layout d)] else given)"
    by (auto simp: get_validated_uv_layer_names_def Let_def split: if_splits)
  show ?thesis
  proof (cases "given = []")
    case True
    with len res Some show ?thesis by simp
  next
    case False
    with res Some show ?thesis by simp
  qed
qed

lemma validate_fails:
  assumes "d \<in> set defs" "uv_layer_names d = None"
  shows "\<exists>e. validate_split_submesh_defs mesh defs use max_bones = Inl e"
proof (cases "use \<and> max_bones < 3")
  case True
  then show ?thesis by (simp add: validate_split_submesh_defs_def)
next
  case False
  from assms(1) obtain i where "i < length defs" "defs ! i = d" by (auto simp: in_set_conv_nth)
  then have "(i, d) \<in> set (enumerate 0 defs)" by (auto simp: in_set_enumerate_eq)
  moreover have "(\<lambda>(i, submesh_def). get_validated_uv_layer_names submesh_def (loop_uvs_keys mesh) i) (i, d)
      = Inl TypeError"
    using assms(2) by (simp add: get_validated_None)
  ultimately have "\<exists>e. map_err (\<lambda>(i, submesh_def). get_validated_uv_layer_names submesh_def (loop_uvs_keys mesh) i)
      (enumerate 0 defs) = Inl e"
    by (rule map_err_Inl)
  with False show ?thesis by (auto simp: validate_split_submesh_defs_def)
qed

text \<open>
  Claim C9. A definition whose \<^verbatim>\<open>uv_layer_names\<close> is \<^verbatim>\<open>None\<close> makes
  \<^verbatim>\<open>get_validated_uv_layer_names\<close> raise \<^verbatim>\<open>TypeError\<close>; an empty list with a layout of
  at least one UV makes it raise \<^verbatim>\<open>ValueError\<close>; whenever it returns names, they are the
  definition's own list, never synthesized ones other than the empty list; and
  \<^verbatim>\<open>split_mesh\<close> on definitions one of which leaves \<^verbatim>\<open>uv_layer_names\<close> out fails in its
  validation, before the mesh data is read.
\<close>

theorem split_mesh_rejects_default_uv_layer_names:
  "(uv_layer_names d = None \<longrightarrow>
      get_validated_uv_layer_names d global_uv_layer_names index = Inl TypeError) \<and>
   (uv_layer_names d = Some [] \<and> 0 < get_uv_count (layout d) \<longrightarrow>
      get_validated_uv_layer_names d global_uv_layer_names index = Inl ValueError) \<and>
   (get_validated_uv_layer_names d global_uv_layer_names index = Inr layer_names \<longrightarrow>
      uv_layer_names d = Some layer_names) \<and>
   ((\<exists>d\<in>set split_submesh_defs. uv_layer_names d = None) \<longrightarrow>
      (\<exists>e. validate_split_submesh_defs mesh split_submesh_defs use_submesh_bone_indices
              max_bones_per_submesh = Inl e \<and>
            split_mesh mesh split_submesh_defs use_submesh_bone_indices max_bones_per_submesh
              unused_bone_indices_are_minus_one = Inl e))"
proof -
  have "\<exists>e. validate_split_submesh_defs mesh split_submesh_defs use_submesh_bone_indices
              max_bones_per_submesh = Inl e \<and>
            split_mesh mesh split_submesh_defs use_submesh_bone_indices max_bones_per_submesh
              unused_bone_indices_are_minus_one = Inl e"
    if "\<exists>d\<in>set split_submesh_defs. uv_layer_names d = None"
  proof -
    from that obtain d0 where "d0 \<in> set split_submesh_defs" "uv_layer_names d0 = None" by blast
    then obtain e where "validate_split_submesh_defs mesh split_submesh_defs use_submesh_bone_indices
              max_bones_per_submesh = Inl e"
      using validate_fails by blast
    then show ?thesis by (auto simp: split_mesh_def)
  qed
  then show ?thesis
    using get_validated_None[of d global_uv_layer_names index]
      get_validated_empty[of d global_uv_layer_names index]
      get_validated_Inr[of d global_uv_layer_names index layer_names]
    by blast
qed

theorem split_mesh_rejects_default_uv_layer_names_witness:
  "get_validated_uv_layer_names default_names_def [] 0 = Inl TypeError \<and>
   split_mesh \<lparr>vertex_data = [key_a, key_b, key_c], loop_vertex_indices = [0, 1, 2],
       loop_data = [plain_loop, plain_loop, plain_loop], loop_uvs_keys = [],
       faces = [(0, 1, 2, 0)], faces_columns = 4\<rparr> [default_names_def] True 38 False = Inl TypeError"
proof -
  let ?mesh = "\<lparr>vertex_data = [key_a, key_b, key_c], loop_vertex_indices = [0, 1, 2],
       loop_data = [plain_loop, plain_loop, plain_loop], loop_uvs_keys = [],
       faces = [(0, 1, 2, 0)], faces_columns = 4\<rparr>"
  have n: "uv_layer_names default_names_def = None"
    by (simp add: default_names_def_def)
  then have ex: "\<exists>d\<in>set [default_names_def]. uv_layer_names d = None" by simp
  from split_mesh_rejects_default_uv_layer_names[of default_names_def "[]" 0 "[]"
      "[default_names_def]" ?mesh True 38 False] n ex
  obtain e where a: "get_validated_uv_layer_names default_names_def [] 0 = Inl TypeError"
    and b: "validate_split_submesh_defs ?mesh [default_names_def] True 38 = Inl e"
    and c: "split_mesh ?mesh [default_names_def] True 38 False = Inl e"
    by blast
  from b a have "e = TypeError"
    by (simp add: validate_split_submesh_defs_def enumerate_eq_zip)
  with a c show ?thesis by simp
qed

subsection \<open>Merging and resplitting: proofs\<close>






lemma length_submesh_blocks [simp]: "length (submesh_blocks off ps) = length ps"
  by (induction off ps rule: submesh_blocks.induct) simp_all



























subsection \<open>Merging and resplitting: examples\<close>







subsection \<open>The bone-count-bounded subsplit: examples\<close>



theorem subsplit_faces_bone_ceiling_witness:
  "subsplit_faces 0 two_faces True 3 False =
     Inr [(0, [skinned_loop (1, 0, 0, 0) (0, 0, 0, 0), skinned_loop (1, 0, 0, 0) (0, 0, 0, 0),
               skinned_loop (1, 0, 0, 0) (0, 0, 0, 0),
               skinned_loop (1 / 2, 1 / 2, 0, 0) (1, 2, 0, 0), skinned_loop (1 / 2, 1 / 2, 0, 0) (1, 2, 0, 0),
               skinned_loop (1 / 2, 1 / 2, 0, 0) (1, 2, 0, 0)],
           [0, 1, 2])] \<and>
   length [0, 1, 2 :: int] \<le> 3"
proof -
  let ?rows = "[skinned_loop (1, 0, 0, 0) (0, 0, 0, 0), skinned_loop (1, 0, 0, 0) (0, 0, 0, 0),
               skinned_loop (1, 0, 0, 0) (0, 0, 0, 0),
               skinned_loop (1 / 2, 1 / 2, 0, 0) (1, 2, 0, 0), skinned_loop (1 / 2, 1 / 2, 0, 0) (1, 2, 0, 0),
               skinned_loop (1 / 2, 1 / 2, 0, 0) (1, 2, 0, 0)]"
  have e: "subsplit_faces 0 two_faces True 3 False = Inr [(0, ?rows, [0, 1, 2])]"
    by code_simp
  have h: "\<forall>face\<in>set (face_rows (loop_bone_indices True False two_faces)).
             card (insert (- 1) (set face)) \<le> 3 + 1"
    by code_simp
  from subsplit_faces_bone_ceiling[OF e h]
  have "length [0, 1, 2 :: int] \<le> 3" by simp
  with e show ?thesis by simp
qed

text \<open>
  Claim C5 as stated fails: a face is never cut, so a face whose three vertices name twelve
  bones makes a subsplit of twelve bones, whatever the limit. Here the limit is 3.
\<close>

theorem subsplit_wide_face_exceeds:
  "subsplit_faces 0 wide_face True 3 False =
     Inr [(0, [skinned_loop (1, 0, 0, 0) (0, 0, 0, 0), skinned_loop (1, 0, 0, 0) (0, 0, 0, 0),
               skinned_loop (1, 0, 0, 0) (0, 0, 0, 0)], [0]),
          (0, [skinned_loop (1 / 4, 1 / 4, 1 / 4, 1 / 4) (0, 1, 2, 3),
               skinned_loop (1 / 4, 1 / 4, 1 / 4, 1 / 4) (4, 5, 6, 7),
               skinned_loop (1 / 4, 1 / 4, 1 / 4, 1 / 4) (8, 9, 10, 11)],
           [1, 2, 3, 4, 5, 6, 7, 8, 9, 10, 11, 12])] \<and>
   \<not> length [1, 2, 3, 4, 5, 6, 7, 8, 9, 10, 11, 12 :: int] \<le> 3"
  by code_simp

end
